theory Spec2Isabelle
  imports Main "HOL-Library.Product_Lexorder" "HOL-Library.Multiset"
begin

section \<open>Story annotator: data model\<close>

text \<open>
  The application keeps a story (chapters of sentences), lets the user attach comments to
  sentences, and exports the result. The model follows \<^verbatim>\<open>App.tsx\<close>
  (the handlers \<^verbatim>\<open>handleFileLoad\<close>, \<^verbatim>\<open>handleSaveOrUpdateComment\<close>,
  \<^verbatim>\<open>handleDeleteComment\<close>, \<^verbatim>\<open>commonExportLogic\<close>),
  \<^verbatim>\<open>FileImporter.tsx\<close> (\<^verbatim>\<open>processFile\<close>) and
  \<^verbatim>\<open>types.ts\<close>.

  Conventions of the embedding:
  \<^item> a JavaScript number is an \<^typ>\<open>int\<close> (the documents handled carry chapter numbers,
    sentence numbers and millisecond timestamps; integers of magnitude below \<open>2^53\<close> are
    exact in JavaScript);
  \<^item> a JavaScript string is a \<^typ>\<open>string\<close> of code units below 256;
  \<^item> \<^verbatim>\<open>undefined\<close> is \<^term>\<open>None\<close>;
  \<^item> a \<^verbatim>\<open>Map\<close> is an association list in insertion order (\<^verbatim>\<open>set\<close> on a key that
    is present replaces the value in place), a \<^verbatim>\<open>Set\<close> a list in insertion order, an
    object an association list in property order (an engine lists integer-like property
    names first; that reordering is not modelled);
  \<^item> \<^verbatim>\<open>Array.prototype.sort\<close> is stable (ECMAScript 2019), so it is
    \<^const>\<open>sort_key\<close>;
  \<^item> React state is a record; a handler takes the state and returns the next one;
  \<^item> \<^verbatim>\<open>Date.now()\<close> and \<^verbatim>\<open>Math.random()\<close> are read from
    parameters of the handler;
  \<^item> a document is the JSON value that \<^verbatim>\<open>JSON.parse\<close> returns and that
    \<^verbatim>\<open>JSON.stringify\<close> is given: writing a value as text and parsing the text gives the
    value back.
\<close>

datatype CommentType = Single | Group

record CommentObject =
  id_c :: string
  text_c :: string
  type_c :: CommentType
  timestamp :: int
  groupId :: "string option"
  appliesToSentenceNumbers :: "int list option"

record AnalysisItem =
  id_s :: string
  Sentence :: string
  ChapterNumber :: int
  SentenceNumber :: int
  additionalAnalysis :: "(string \<times> string) list"
  comments :: "CommentObject list"

type_synonym ChaptersMap = "(int \<times> AnalysisItem list) list"

record ProcessedStoryData =
  title :: string
  chapters :: ChaptersMap

datatype EditMode = SingleMode | MassMode | GroupMode

subsection \<open>JSON values\<close>

datatype json =
    JNull
  | JBool bool
  | JNum int
  | JStr string
  | JArr "json list"
  | JObj "(string \<times> json) list"

datatype js_error =
    SyntaxError
  | TypeError
  | MissingRequiredFields
  | AnalysisNotArray
  | InvalidEntry
  | FailedToReadFileContent

datatype app_error =
    ErrorProcessingStoryData js_error
  | ErrorParsingJSON js_error
  | ErrorReadingFile
  | NoStoryDataToExport

record app_state =
  storyData :: "ProcessedStoryData option"
  originalCompleteStory :: "json option"
  selectedAnalysisItem :: "AnalysisItem option"
  isModalOpen :: bool
  error :: "app_error option"
  isLoading :: bool
  editMode :: EditMode
  bulkSelectedSentenceIds :: "string list"

subsection \<open>Strings and arrays of the JavaScript library\<close>

text \<open>\<^verbatim>\<open>String.prototype.trim\<close>: white space and line terminators among the code units
  below 256 are TAB, LF, VT, FF, CR, SPACE and NBSP.\<close>

definition isWhiteSpace :: "char \<Rightarrow> bool" where
  "isWhiteSpace c =
     (c = CHR 0x09 \<or> c = CHR 0x0A \<or> c = CHR 0x0B \<or> c = CHR 0x0C \<or> c = CHR 0x0D
      \<or> c = CHR 0x20 \<or> c = CHR 0xA0)"

definition trim :: "string \<Rightarrow> string" where
  "trim s = rev (dropWhile isWhiteSpace (rev (dropWhile isWhiteSpace s)))"

text \<open>\<^verbatim>\<open>Array.prototype.findIndex\<close>, with \<^verbatim>\<open>-1\<close> as \<^term>\<open>None\<close>.\<close>

fun findIndex :: "('a \<Rightarrow> bool) \<Rightarrow> 'a list \<Rightarrow> nat option" where
  "findIndex p [] = None"
| "findIndex p (x # xs) = (if p x then Some 0 else map_option Suc (findIndex p xs))"

text \<open>\<^verbatim>\<open>generateUniqueId\<close> builds \<^verbatim>\<open>id-<Date.now()>-<random suffix>\<close>; the part
  after \<^verbatim>\<open>id-\<close> is the argument.\<close>

definition generateUniqueId :: "string \<Rightarrow> string" where
  "generateUniqueId r = ''id-'' @ r"

text \<open>All sentences of the container, in the iteration order of the \<^verbatim>\<open>Map\<close>.\<close>

definition allSentences :: "ChaptersMap \<Rightarrow> AnalysisItem list" where
  "allSentences m = concat (map snd m)"

definition allComments :: "ChaptersMap \<Rightarrow> CommentObject list" where
  "allComments m = concat (map comments (allSentences m))"

section \<open>Annotation mutator\<close>

text \<open>The loop
  \<^verbatim>\<open>for (const [chapterNum, sentences] of newChaptersMap.entries()) {
    const itemIndex = sentences.findIndex(p);
    if (itemIndex !== -1) { ...; updatedSentences[itemIndex] = f(sentences[itemIndex]);
      newChaptersMap.set(chapterNum, updatedSentences); break; } }\<close>
  occurs three times (single edit, bulk add, single delete): the first chapter holding a
  sentence that satisfies \<open>p\<close> gets its first such sentence replaced.\<close>

fun updateFirstMatch ::
  "(AnalysisItem \<Rightarrow> bool) \<Rightarrow> (AnalysisItem \<Rightarrow> AnalysisItem) \<Rightarrow> ChaptersMap \<Rightarrow> ChaptersMap" where
  "updateFirstMatch p f [] = []"
| "updateFirstMatch p f ((chapterNum, sentences) # rest) =
     (case findIndex p sentences of
        Some itemIndex \<Rightarrow> (chapterNum, sentences[itemIndex := f (sentences ! itemIndex)]) # rest
      | None \<Rightarrow> (chapterNum, sentences) # updateFirstMatch p f rest)"

text \<open>\<^verbatim>\<open>newChaptersMap.set(k, v)\<close> for a key that may be absent.\<close>

fun mapSet :: "int \<Rightarrow> AnalysisItem list \<Rightarrow> ChaptersMap \<Rightarrow> ChaptersMap" where
  "mapSet k v [] = [(k, v)]"
| "mapSet k v ((k', v') # rest) = (if k' = k then (k, v) # rest else (k', v') # mapSet k v rest)"

text \<open>Editing: the object \<^verbatim>\<open>{ ...c, text: commentText.trim(), timestamp: now }\<close>.\<close>

definition retext :: "string \<Rightarrow> int \<Rightarrow> CommentObject \<Rightarrow> CommentObject" where
  "retext t now c = c\<lparr>text_c := t, timestamp := now\<rparr>"

definition updateGroupComments :: "string \<Rightarrow> string \<Rightarrow> int \<Rightarrow> CommentObject list \<Rightarrow> CommentObject list" where
  "updateGroupComments groupIdToUpdate t now cs =
     map (\<lambda>c. if groupId c = Some groupIdToUpdate then retext t now c else c) cs"

text \<open>The callback of \<^verbatim>\<open>chapterSentences.map\<close> in the group branch of an edit: both
  branches that touch the sentence rewrite every comment of the group.\<close>

definition editGroupSentence :: "string \<Rightarrow> string \<Rightarrow> string \<Rightarrow> int \<Rightarrow> AnalysisItem \<Rightarrow> AnalysisItem" where
  "editGroupSentence editId groupIdToUpdate t now s =
     (if findIndex (\<lambda>c. groupId c = Some groupIdToUpdate \<and> id_c c = editId) (comments s) \<noteq> None
      then s\<lparr>comments := updateGroupComments groupIdToUpdate t now (comments s)\<rparr>
      else if list_ex (\<lambda>c. groupId c = Some groupIdToUpdate) (comments s)
      then s\<lparr>comments := updateGroupComments groupIdToUpdate t now (comments s)\<rparr>
      else s)"

definition editGroup :: "string \<Rightarrow> string \<Rightarrow> string \<Rightarrow> int \<Rightarrow> ChaptersMap \<Rightarrow> ChaptersMap" where
  "editGroup editId groupIdToUpdate t now m =
     map (\<lambda>(chapterNum, chapterSentences).
            (chapterNum, map (editGroupSentence editId groupIdToUpdate t now) chapterSentences)) m"

text \<open>\<^verbatim>\<open>itemThatContainedEditedComment\<close> of the group branch: the last rewritten sentence
  whose id is the selected item's.\<close>

definition groupEditedItem ::
  "string \<Rightarrow> string \<Rightarrow> string \<Rightarrow> int \<Rightarrow> string \<Rightarrow> ChaptersMap \<Rightarrow> AnalysisItem option" where
  "groupEditedItem editId groupIdToUpdate t now selectedId m =
     (case filter (\<lambda>s. id_s s = selectedId
                       \<and> list_ex (\<lambda>c. groupId c = Some groupIdToUpdate) (comments s))
             (allSentences m) of
        [] \<Rightarrow> None
      | x # xs \<Rightarrow> Some (editGroupSentence editId groupIdToUpdate t now (last (x # xs))))"

definition editSingleItem :: "string \<Rightarrow> string \<Rightarrow> int \<Rightarrow> AnalysisItem \<Rightarrow> AnalysisItem" where
  "editSingleItem editId t now s =
     s\<lparr>comments := map (\<lambda>c. if id_c c = editId then retext t now c else c) (comments s)\<rparr>"

definition hasCommentId :: "string \<Rightarrow> AnalysisItem \<Rightarrow> bool" where
  "hasCommentId editId s = list_ex (\<lambda>c. id_c c = editId) (comments s)"

definition editSingle :: "string \<Rightarrow> string \<Rightarrow> int \<Rightarrow> ChaptersMap \<Rightarrow> ChaptersMap" where
  "editSingle editId t now m = updateFirstMatch (hasCommentId editId) (editSingleItem editId t now) m"

definition appendComment :: "CommentObject \<Rightarrow> AnalysisItem \<Rightarrow> AnalysisItem" where
  "appendComment c s = s\<lparr>comments := comments s @ [c]\<rparr>"

text \<open>The sentence numbers of a group action:
  \<^verbatim>\<open>Array.from(bulkSelectedSentenceIds).map(id => { for (const sentences of
  newChaptersMap.values()) { const s = sentences.find(sent => sent.id === id);
  if (s) return s["Sentence Number"]; } return -1; }).filter(n => n !== -1).sort((a,b) => a-b)\<close>.\<close>

definition sentenceNumberOf :: "ChaptersMap \<Rightarrow> string \<Rightarrow> int" where
  "sentenceNumberOf m itemId =
     (case find (\<lambda>sent. id_s sent = itemId) (allSentences m) of
        Some s \<Rightarrow> SentenceNumber s
      | None \<Rightarrow> - 1)"

definition sentenceNumbersForGroup :: "ChaptersMap \<Rightarrow> string list \<Rightarrow> int list" where
  "sentenceNumbersForGroup m ids = sort (filter (\<lambda>n. n \<noteq> - 1) (map (sentenceNumberOf m) ids))"

text \<open>The body of \<^verbatim>\<open>bulkSelectedSentenceIds.forEach\<close>; \<open>n\<close> counts the calls of
  \<^verbatim>\<open>generateUniqueId\<close> made so far, \<open>uid n\<close> is what the next call draws.\<close>

definition bulkComment ::
  "EditMode \<Rightarrow> string \<Rightarrow> int \<Rightarrow> string option \<Rightarrow> int list option \<Rightarrow> string \<Rightarrow> CommentObject" where
  "bulkComment mode t now commonGroupId numbers newId =
     \<lparr>id_c = newId, text_c = t,
      type_c = (if mode = GroupMode then Group else Single),
      timestamp = now,
      groupId = (if mode = GroupMode then commonGroupId else None),
      appliesToSentenceNumbers = (if mode = GroupMode then numbers else None)\<rparr>"

fun bulkAdd ::
  "EditMode \<Rightarrow> string \<Rightarrow> int \<Rightarrow> string option \<Rightarrow> int list option \<Rightarrow> (nat \<Rightarrow> string) \<Rightarrow>
   string list \<Rightarrow> nat \<Rightarrow> ChaptersMap \<Rightarrow> ChaptersMap" where
  "bulkAdd mode t now g numbers uid [] n m = m"
| "bulkAdd mode t now g numbers uid (itemId # ids) n m =
     (if list_ex (\<lambda>s. id_s s = itemId) (allSentences m)
      then bulkAdd mode t now g numbers uid ids (Suc n)
             (updateFirstMatch (\<lambda>s. id_s s = itemId)
                (appendComment (bulkComment mode t now g numbers (generateUniqueId (uid n)))) m)
      else bulkAdd mode t now g numbers uid ids n m)"

text \<open>\<^verbatim>\<open>handleSaveOrUpdateComment(commentText, editingCommentDetail)\<close>.
  \<open>now\<close> is the value of \<^verbatim>\<open>Date.now()\<close>, \<open>uid k\<close> the suffix drawn by the \<open>k\<close>-th call of
  \<^verbatim>\<open>generateUniqueId\<close>. A group id is "supplied" when it is truthy: present and not the
  empty string.\<close>

definition handleSaveOrUpdateComment ::
  "int \<Rightarrow> (nat \<Rightarrow> string) \<Rightarrow> string \<Rightarrow> (string \<times> string option) option \<Rightarrow> app_state \<Rightarrow> app_state" where
  "handleSaveOrUpdateComment now uid commentText editingCommentDetail st =
     (case storyData st of
        None \<Rightarrow> st
      | Some sd \<Rightarrow>
          if trim commentText = [] then st
          else
            let newChaptersMap = chapters sd; t = trim commentText in
            (case editingCommentDetail of
               Some (editId, editGroupId) \<Rightarrow>
                 (if editGroupId \<noteq> None \<and> editGroupId \<noteq> Some []
                  then
                    let g = the editGroupId;
                        itemThatContainedEditedComment =
                          (case selectedAnalysisItem st of
                             None \<Rightarrow> None
                           | Some sel \<Rightarrow> groupEditedItem editId g t now (id_s sel) newChaptersMap)
                    in st\<lparr>storyData := Some (sd\<lparr>chapters := editGroup editId g t now newChaptersMap\<rparr>),
                          selectedAnalysisItem :=
                            (case itemThatContainedEditedComment of
                               None \<Rightarrow> selectedAnalysisItem st
                             | Some it \<Rightarrow> Some it),
                          isModalOpen := False\<rparr>
                  else
                    let itemThatContainedEditedComment =
                          map_option (editSingleItem editId t now)
                            (find (hasCommentId editId) (allSentences newChaptersMap))
                    in st\<lparr>storyData := Some (sd\<lparr>chapters := editSingle editId t now newChaptersMap\<rparr>),
                          selectedAnalysisItem :=
                            (case (selectedAnalysisItem st, itemThatContainedEditedComment) of
                               (Some sel, Some it) \<Rightarrow> if id_s sel = id_s it then Some it else Some sel
                             | (sel, _) \<Rightarrow> sel),
                          isModalOpen := False\<rparr>)
             | None \<Rightarrow>
                 (if editMode st = SingleMode \<and> selectedAnalysisItem st \<noteq> None
                  then
                    let sel = the (selectedAnalysisItem st); chapterNum = ChapterNumber sel in
                    (case map_of newChaptersMap chapterNum of
                       None \<Rightarrow> st\<lparr>storyData := Some (sd\<lparr>chapters := newChaptersMap\<rparr>), isModalOpen := False\<rparr>
                     | Some sentences \<Rightarrow>
                         (case findIndex (\<lambda>s. id_s s = id_s sel) sentences of
                            None \<Rightarrow> st\<lparr>storyData := Some (sd\<lparr>chapters := newChaptersMap\<rparr>), isModalOpen := False\<rparr>
                          | Some itemIndex \<Rightarrow>
                              let updatedItem =
                                    appendComment
                                      \<lparr>id_c = generateUniqueId (uid 0), text_c = t, type_c = Single,
                                       timestamp = now, groupId = None, appliesToSentenceNumbers = None\<rparr>
                                      (sentences ! itemIndex)
                              in st\<lparr>storyData :=
                                      Some (sd\<lparr>chapters :=
                                        mapSet chapterNum (sentences[itemIndex := updatedItem]) newChaptersMap\<rparr>),
                                    selectedAnalysisItem := Some updatedItem,
                                    isModalOpen := False\<rparr>))
                  else if (editMode st = MassMode \<or> editMode st = GroupMode)
                          \<and> bulkSelectedSentenceIds st \<noteq> []
                  then
                    let commonGroupId =
                          (if editMode st = GroupMode then Some (generateUniqueId (uid 0)) else None);
                        numbers =
                          (if editMode st = GroupMode
                           then Some (sentenceNumbersForGroup newChaptersMap (bulkSelectedSentenceIds st))
                           else None)
                    in st\<lparr>storyData :=
                            Some (sd\<lparr>chapters :=
                              bulkAdd (editMode st) t now commonGroupId numbers uid
                                (bulkSelectedSentenceIds st)
                                (if editMode st = GroupMode then 1 else 0) newChaptersMap\<rparr>),
                          bulkSelectedSentenceIds := [],
                          isModalOpen := False\<rparr>
                  else st\<lparr>storyData := Some (sd\<lparr>chapters := newChaptersMap\<rparr>), isModalOpen := False\<rparr>)))"

text \<open>\<^verbatim>\<open>handleDeleteComment(itemId, commentId)\<close>.\<close>

definition commentToDeleteDetails :: "string \<Rightarrow> string \<Rightarrow> ChaptersMap \<Rightarrow> CommentObject option" where
  "commentToDeleteDetails itemId commentId m =
     (case find (\<lambda>sentence. id_s sentence = itemId) (allSentences m) of
        None \<Rightarrow> None
      | Some sentence \<Rightarrow> find (\<lambda>c. id_c c = commentId) (comments sentence))"

definition deleteGroup :: "string \<Rightarrow> ChaptersMap \<Rightarrow> ChaptersMap" where
  "deleteGroup groupIdToDelete m =
     map (\<lambda>(cn, chapSentences).
            (cn, map (\<lambda>s. s\<lparr>comments := filter (\<lambda>c. groupId c \<noteq> Some groupIdToDelete) (comments s)\<rparr>)
                   chapSentences)) m"

definition deleteSingle :: "string \<Rightarrow> string \<Rightarrow> ChaptersMap \<Rightarrow> ChaptersMap" where
  "deleteSingle itemId commentId m =
     updateFirstMatch (\<lambda>s. id_s s = itemId)
       (\<lambda>currentItem. currentItem\<lparr>comments := filter (\<lambda>c. id_c c \<noteq> commentId) (comments currentItem)\<rparr>) m"

definition deleteFrom :: "string \<Rightarrow> string \<Rightarrow> ChaptersMap \<Rightarrow> ChaptersMap" where
  "deleteFrom itemId commentId m =
     (case commentToDeleteDetails itemId commentId m of
        Some c \<Rightarrow>
          (if type_c c = Group \<and> groupId c \<noteq> None \<and> groupId c \<noteq> Some []
           then deleteGroup (the (groupId c)) m
           else deleteSingle itemId commentId m)
      | None \<Rightarrow> deleteSingle itemId commentId m)"

definition handleDeleteComment :: "string \<Rightarrow> string \<Rightarrow> app_state \<Rightarrow> app_state" where
  "handleDeleteComment itemId commentId st =
     (case storyData st of
        None \<Rightarrow> st
      | Some sd \<Rightarrow>
          let newChaptersMap = deleteFrom itemId commentId (chapters sd) in
          st\<lparr>storyData := Some (sd\<lparr>chapters := newChaptersMap\<rparr>),
             selectedAnalysisItem :=
               (case selectedAnalysisItem st of
                  None \<Rightarrow> None
                | Some sel \<Rightarrow>
                    if id_s sel = itemId
                    then find (\<lambda>i. id_s i = itemId) (allSentences newChaptersMap)
                    else Some sel)\<rparr>)"

section \<open>Exporter\<close>

text \<open>\<^verbatim>\<open>String(n)\<close> for an integer \<open>n\<close>, and \<^verbatim>\<open>Array.prototype.join\<close>.\<close>

fun natDigits :: "nat \<Rightarrow> string" where
  "natDigits n =
     (if n < 10 then [''0123456789'' ! n]
      else natDigits (n div 10) @ [''0123456789'' ! (n mod 10)])"

definition stringOfInt :: "int \<Rightarrow> string" where
  "stringOfInt i = (if i < 0 then CHR ''-'' # natDigits (nat (- i)) else natDigits (nat i))"

fun joinWith :: "string \<Rightarrow> string list \<Rightarrow> string" where
  "joinWith sep [] = []"
| "joinWith sep [x] = x"
| "joinWith sep (x # y # ys) = x @ sep @ joinWith sep (y # ys)"

text \<open>\<^verbatim>\<open>[...item.comments].sort((a, b) => b.timestamp - a.timestamp)[0]\<close>, or
  \<^verbatim>\<open>null\<close> for a sentence without comments. The sort is stable.\<close>

definition latestComment :: "CommentObject list \<Rightarrow> CommentObject option" where
  "latestComment cs =
     (case sort_key (\<lambda>c. - timestamp c) cs of [] \<Rightarrow> None | c # _ \<Rightarrow> Some c)"

definition commentTextOf :: "AnalysisItem \<Rightarrow> string option" where
  "commentTextOf item = map_option text_c (latestComment (comments item))"

definition commentAppliesToOf :: "AnalysisItem \<Rightarrow> string option" where
  "commentAppliesToOf item =
     (case latestComment (comments item) of
        None \<Rightarrow> None
      | Some latest \<Rightarrow>
          (case appliesToSentenceNumbers latest of
             None \<Rightarrow> None
           | Some ns \<Rightarrow> if type_c latest = Group then Some (joinWith '','' (map stringOfInt ns)) else None))"

text \<open>The two assignments \<^verbatim>\<open>if (commentText) item.comment = commentText;
  if (commentAppliesTo) item["comment applies to sentences"] = commentAppliesTo;\<close>: a string
  is truthy when it is not empty.\<close>

definition legacyFields :: "AnalysisItem \<Rightarrow> (string \<times> json) list" where
  "legacyFields item =
     (case commentTextOf item of
        None \<Rightarrow> []
      | Some commentText \<Rightarrow> if commentText = [] then [] else [(''comment'', JStr commentText)])
     @ (case commentAppliesToOf item of
        None \<Rightarrow> []
      | Some commentAppliesTo \<Rightarrow>
          if commentAppliesTo = [] then []
          else [(''comment applies to sentences'', JStr commentAppliesTo)])"

definition simpleExportItem :: "AnalysisItem \<Rightarrow> json" where
  "simpleExportItem item =
     JObj ([(''Sentence'', JStr (Sentence item)), (''Sentence Number'', JNum (SentenceNumber item))]
           @ legacyFields item)"

text \<open>An object literal with spread: a later property of the same name replaces the value
  and keeps the place of the earlier one.\<close>

fun objSet :: "string \<Rightarrow> json \<Rightarrow> (string \<times> json) list \<Rightarrow> (string \<times> json) list" where
  "objSet k v [] = [(k, v)]"
| "objSet k v ((k', v') # rest) = (if k' = k then (k, v) # rest else (k', v') # objSet k v rest)"

definition objLiteral :: "(string \<times> json) list \<Rightarrow> (string \<times> json) list" where
  "objLiteral ps = fold (\<lambda>(k, v) acc. objSet k v acc) ps []"

text \<open>A comment as \<^verbatim>\<open>JSON.stringify\<close> writes it: a property whose value is
  \<^verbatim>\<open>undefined\<close> is left out.\<close>

definition commentJson :: "CommentObject \<Rightarrow> json" where
  "commentJson c =
     JObj ([(''id'', JStr (id_c c)), (''text'', JStr (text_c c)),
            (''type'', JStr (if type_c c = Group then ''group'' else ''single'')),
            (''timestamp'', JNum (timestamp c))]
           @ (case groupId c of None \<Rightarrow> [] | Some g \<Rightarrow> [(''groupId'', JStr g)])
           @ (case appliesToSentenceNumbers c of
                None \<Rightarrow> []
              | Some ns \<Rightarrow> [(''appliesToSentenceNumbers'', JArr (map JNum ns))]))"

definition fullExportItem :: "AnalysisItem \<Rightarrow> json" where
  "fullExportItem item =
     JObj (objLiteral
             ([(''Sentence'', JStr (Sentence item)),
               (''Chapter Number'', JNum (ChapterNumber item)),
               (''Sentence Number'', JNum (SentenceNumber item))]
              @ map (\<lambda>(k, v). (k, JStr v)) (additionalAnalysis item)
              @ [(''all_comments'', JArr (map commentJson (comments item)))]
              @ legacyFields item))"

text \<open>\<^verbatim>\<open>analysisExport.sort(...)\<close>: by chapter number, then sentence number, for the full
  export; by sentence number alone for the simple one. The numbers compared are those of
  the sentence the exported entry was made from.\<close>

definition analysisExport :: "bool \<Rightarrow> ChaptersMap \<Rightarrow> json list" where
  "analysisExport isSimpleExport m =
     (if isSimpleExport
      then map simpleExportItem (sort_key SentenceNumber (allSentences m))
      else map fullExportItem
             (sort_key (\<lambda>item. (ChapterNumber item, SentenceNumber item)) (allSentences m)))"

fun truthy :: "json \<Rightarrow> bool" where
  "truthy JNull = False"
| "truthy (JBool b) = b"
| "truthy (JNum n) = (n \<noteq> 0)"
| "truthy (JStr s) = (s \<noteq> [])"
| "truthy (JArr xs) = True"
| "truthy (JObj kvs) = True"

definition truthyOpt :: "json option \<Rightarrow> bool" where
  "truthyOpt v = (case v of None \<Rightarrow> False | Some x \<Rightarrow> truthy x)"

text \<open>Reading a property: \<^verbatim>\<open>TypeError\<close> on \<^verbatim>\<open>null\<close>, \<^verbatim>\<open>undefined\<close> on a value
  that is not an object (none of the names read is a property of an array, a string, a
  number or a boolean).\<close>

fun getProp :: "json \<Rightarrow> string \<Rightarrow> js_error + json option" where
  "getProp JNull k = Inl TypeError"
| "getProp (JObj kvs) k = Inr (map_of kvs k)"
| "getProp v k = Inr None"

definition ownProp :: "json \<Rightarrow> string \<Rightarrow> json option" where
  "ownProp v k = (case v of JObj kvs \<Rightarrow> map_of kvs k | _ \<Rightarrow> None)"

definition exportData :: "bool \<Rightarrow> ProcessedStoryData \<Rightarrow> json \<Rightarrow> json" where
  "exportData isSimpleExport sd original =
     (if isSimpleExport then JArr (analysisExport True (chapters sd))
      else JObj [(''Analysis'', JArr (analysisExport False (chapters sd))),
                 (''The Complete Story'',
                    JObj ((''Title'', JStr (title sd))
                          # (case ownProp original ''Chapters'' of
                               None \<Rightarrow> []
                             | Some chaptersText \<Rightarrow> [(''Chapters'', chaptersText)])))])"

text \<open>\<^verbatim>\<open>commonExportLogic(isSimpleExport)\<close>: the next state and the document written to
  the download, if any.\<close>

definition commonExportLogic :: "bool \<Rightarrow> app_state \<Rightarrow> app_state \<times> json option" where
  "commonExportLogic isSimpleExport st =
     (case (storyData st, originalCompleteStory st) of
        (Some sd, Some original) \<Rightarrow>
          if truthy original then (st, Some (exportData isSimpleExport sd original))
          else (st\<lparr>error := Some NoStoryDataToExport\<rparr>, None)
      | _ \<Rightarrow> (st\<lparr>error := Some NoStoryDataToExport\<rparr>, None))"


definition handleSimpleExport :: "app_state \<Rightarrow> app_state \<times> json option" where
  "handleSimpleExport st = commonExportLogic True st"

section \<open>Story importer\<close>

text \<open>The handlers are written in TypeScript against the interfaces of
  \<^verbatim>\<open>types.ts\<close>, and the state of the model is typed accordingly. A document is
  an arbitrary JSON value. Where the code tests a value at run time the model makes the
  same test on the JSON value. Where the code relies on the declared type without a test
  (the title, the sentence text, the fields of an imported comment) and the document
  carries a value of another type, the import has no typed result: it is
  \<^term>\<open>None\<close> at the level of the handler. A run-time failure always takes
  precedence, so the handler reports an error exactly when the code does.\<close>

definition asString :: "json option \<Rightarrow> string option" where
  "asString v = (case v of Some (JStr s) \<Rightarrow> Some s | _ \<Rightarrow> None)"

definition asNumber :: "json option \<Rightarrow> int option" where
  "asNumber v = (case v of Some (JNum n) \<Rightarrow> Some n | _ \<Rightarrow> None)"

definition asCommentType :: "json option \<Rightarrow> CommentType option" where
  "asCommentType v =
     (case v of
        Some (JStr s) \<Rightarrow> if s = ''single'' then Some Single else if s = ''group'' then Some Group else None
      | _ \<Rightarrow> None)"

text \<open>An optional property: the outer \<^term>\<open>None\<close> is a value outside the declared type.\<close>

definition asOptionalString :: "json option \<Rightarrow> string option option" where
  "asOptionalString v = (case v of None \<Rightarrow> Some None | Some (JStr s) \<Rightarrow> Some (Some s) | _ \<Rightarrow> None)"

fun asNumbers :: "json list \<Rightarrow> int list option" where
  "asNumbers [] = Some []"
| "asNumbers (JNum n # xs) = map_option ((#) n) (asNumbers xs)"
| "asNumbers (_ # xs) = None"

definition asOptionalNumbers :: "json option \<Rightarrow> int list option option" where
  "asOptionalNumbers v =
     (case v of None \<Rightarrow> Some None | Some (JArr xs) \<Rightarrow> map_option Some (asNumbers xs) | _ \<Rightarrow> None)"

text \<open>\<^verbatim>\<open>String(value)\<close> for a JSON value.\<close>

fun jsString :: "json \<Rightarrow> string" where
  "jsString JNull = ''null''"
| "jsString (JBool b) = (if b then ''true'' else ''false'')"
| "jsString (JNum n) = stringOfInt n"
| "jsString (JStr s) = s"
| "jsString (JArr xs) = joinWith '','' (map (\<lambda>x. if x = JNull then [] else jsString x) xs)"
| "jsString (JObj kvs) = ''[object Object]''"

text \<open>\<^verbatim>\<open>s.split(',')\<close> and \<^verbatim>\<open>parseInt(s, 10)\<close> (\<^term>\<open>None\<close> is \<^verbatim>\<open>NaN\<close>).\<close>

fun splitOn :: "char \<Rightarrow> string \<Rightarrow> string list" where
  "splitOn sep [] = [[]]"
| "splitOn sep (c # cs) =
     (if c = sep then [] # splitOn sep cs
      else (case splitOn sep cs of [] \<Rightarrow> [[c]] | h # t \<Rightarrow> (c # h) # t))"

definition isDigit :: "char \<Rightarrow> bool" where
  "isDigit c = (c \<in> set ''0123456789'')"

definition digitValue :: "char \<Rightarrow> nat" where
  "digitValue c = (case findIndex (\<lambda>d. d = c) ''0123456789'' of Some i \<Rightarrow> i | None \<Rightarrow> 0)"

definition digitsValue :: "string \<Rightarrow> nat" where
  "digitsValue ds = foldl (\<lambda>acc d. 10 * acc + digitValue d) 0 ds"

definition parseInt10 :: "string \<Rightarrow> int option" where
  "parseInt10 s =
     (let s1 = dropWhile isWhiteSpace s;
          negative = (s1 \<noteq> [] \<and> hd s1 = CHR ''-'');
          s2 = (if s1 \<noteq> [] \<and> (hd s1 = CHR ''-'' \<or> hd s1 = CHR ''+'') then tl s1 else s1);
          ds = takeWhile isDigit s2
      in if ds = [] then None
         else Some (if negative then - int (digitsValue ds) else int (digitsValue ds)))"

text \<open>\<^verbatim>\<open>rawAppliesTo.split(',').map(n => parseInt(n.trim(), 10)).filter(n => !isNaN(n))\<close>.\<close>

definition parseAppliesTo :: "string \<Rightarrow> int list" where
  "parseAppliesTo rawAppliesTo = List.map_filter (\<lambda>n. parseInt10 (trim n)) (splitOn CHR '','' rawAppliesTo)"

text \<open>The callback of \<^verbatim>\<open>all_comments.map\<close>. \<open>n\<close> counts the values drawn so far from the
  environment: \<open>uid n\<close> is the suffix of the next generated id, \<open>clock n\<close> the next reading of
  \<^verbatim>\<open>Date.now()\<close>. The result is the comment (\<^term>\<open>None\<close> when a field is outside its
  declared type) and the new count.\<close>

definition importComment ::
  "(nat \<Rightarrow> int) \<Rightarrow> (nat \<Rightarrow> string) \<Rightarrow> nat \<Rightarrow> json \<Rightarrow> js_error + (CommentObject option \<times> nat)" where
  "importComment clock uid n c =
     (if c = JNull then Inl TypeError
      else
        let idv = ownProp c ''id'';
            newId = (if truthyOpt idv then asString idv else Some (generateUniqueId (uid n)));
            n1 = (if truthyOpt idv then n else Suc n);
            tsv = ownProp c ''timestamp'';
            newTimestamp = (if truthyOpt tsv then asNumber tsv else Some (clock n1));
            n2 = (if truthyOpt tsv then n1 else Suc n1)
        in Inr
          (case (newId, asString (ownProp c ''text''), asCommentType (ownProp c ''type''), newTimestamp,
                 asOptionalString (ownProp c ''groupId''),
                 asOptionalNumbers (ownProp c ''appliesToSentenceNumbers'')) of
             (Some i, Some t, Some ty, Some ts, Some g, Some a) \<Rightarrow>
               Some \<lparr>id_c = i, text_c = t, type_c = ty, timestamp = ts, groupId = g,
                     appliesToSentenceNumbers = a\<rparr>
           | _ \<Rightarrow> None,
           n2))"

fun importComments ::
  "(nat \<Rightarrow> int) \<Rightarrow> (nat \<Rightarrow> string) \<Rightarrow> nat \<Rightarrow> json list \<Rightarrow>
   js_error + (CommentObject list option \<times> nat)" where
  "importComments clock uid n [] = Inr (Some [], n)"
| "importComments clock uid n (c # cs) =
     (case importComment clock uid n c of
        Inl e \<Rightarrow> Inl e
      | Inr (r, n1) \<Rightarrow>
          (case importComments clock uid n1 cs of
             Inl e \<Rightarrow> Inl e
           | Inr (rs, n2) \<Rightarrow>
               Inr (case (r, rs) of (Some x, Some xs) \<Rightarrow> Some (x # xs) | _ \<Rightarrow> None, n2)))"

text \<open>The legacy format: one comment made from the \<^verbatim>\<open>comment\<close> field.\<close>

definition legacyComment ::
  "(nat \<Rightarrow> int) \<Rightarrow> (nat \<Rightarrow> string) \<Rightarrow> nat \<Rightarrow> json option \<Rightarrow> json option \<Rightarrow>
   js_error + (CommentObject list option \<times> nat)" where
  "legacyComment clock uid n rawCommentText rawAppliesTo =
     (if truthyOpt rawAppliesTo
      then
        (case asString rawAppliesTo of
           None \<Rightarrow> Inl TypeError
         | Some a \<Rightarrow>
             Inr (map_option
                    (\<lambda>t. [\<lparr>id_c = generateUniqueId (uid n), text_c = t, type_c = Group,
                            timestamp = clock (Suc n),
                            groupId = Some (generateUniqueId (uid (Suc (Suc n)))),
                            appliesToSentenceNumbers = Some (parseAppliesTo a)\<rparr>])
                    (asString rawCommentText),
                  Suc (Suc (Suc n))))
      else
        Inr (map_option
               (\<lambda>t. [\<lparr>id_c = generateUniqueId (uid n), text_c = t, type_c = Single,
                       timestamp = clock (Suc n), groupId = None,
                       appliesToSentenceNumbers = None\<rparr>])
               (asString rawCommentText),
             Suc (Suc n)))"

definition knownKeys :: "string list" where
  "knownKeys = [''Sentence'', ''Chapter Number'', ''Sentence Number'', ''comment'',
                ''comment applies to sentences'', ''all_comments'']"

text \<open>\<^verbatim>\<open>parsedAdditionalAnalysis\<close>: the other properties of the entry, each value
  through \<^verbatim>\<open>String\<close>.\<close>

fun recordSet :: "string \<Rightarrow> string \<Rightarrow> (string \<times> string) list \<Rightarrow> (string \<times> string) list" where
  "recordSet k v [] = [(k, v)]"
| "recordSet k v ((k', v') # rest) = (if k' = k then (k, v) # rest else (k', v') # recordSet k v rest)"

definition parsedAdditionalAnalysis :: "json \<Rightarrow> (string \<times> string) list" where
  "parsedAdditionalAnalysis rawItem =
     fold (\<lambda>(key, v) acc. recordSet key (jsString v) acc)
       (filter (\<lambda>(key, v). key \<notin> set knownKeys) (case rawItem of JObj kvs \<Rightarrow> kvs | _ \<Rightarrow> []))
       []"

text \<open>The callback of \<^verbatim>\<open>data.Analysis.forEach\<close> up to the construction of the item.\<close>

definition importItem ::
  "(nat \<Rightarrow> int) \<Rightarrow> (nat \<Rightarrow> string) \<Rightarrow> nat \<Rightarrow> json \<Rightarrow> js_error + (AnalysisItem option \<times> nat)" where
  "importItem clock uid n rawItem =
     (if rawItem = JNull then Inl TypeError
      else
        let sentenceText = ownProp rawItem ''Sentence'';
            chapterNum = ownProp rawItem ''Chapter Number'';
            sentenceNum = ownProp rawItem ''Sentence Number'';
            rawCommentText = ownProp rawItem ''comment'';
            rawAppliesTo = ownProp rawItem ''comment applies to sentences'';
            all_comments = ownProp rawItem ''all_comments''
        in
          (case (asNumber chapterNum, asNumber sentenceNum) of
             (Some ch, Some sn) \<Rightarrow>
               if \<not> truthyOpt sentenceText then Inl InvalidEntry
               else
                 (case (case all_comments of
                          Some (JArr cs) \<Rightarrow> importComments clock uid n cs
                        | _ \<Rightarrow>
                            if truthyOpt rawCommentText
                            then legacyComment clock uid n rawCommentText rawAppliesTo
                            else Inr (Some [], n)) of
                    Inl e \<Rightarrow> Inl e
                  | Inr (currentComments, n1) \<Rightarrow>
                      Inr (case (asString sentenceText, currentComments) of
                             (Some text, Some cs) \<Rightarrow>
                               Some \<lparr>id_s = ''ch'' @ stringOfInt ch @ ''-s'' @ stringOfInt sn,
                                     Sentence = text, ChapterNumber = ch, SentenceNumber = sn,
                                     additionalAnalysis = parsedAdditionalAnalysis rawItem,
                                     comments = cs\<rparr>
                           | _ \<Rightarrow> None,
                           n1))
           | _ \<Rightarrow> Inl InvalidEntry))"

text \<open>\<^verbatim>\<open>if (!newChaptersMap.has(chapterNum)) newChaptersMap.set(chapterNum, []);
  newChaptersMap.get(chapterNum)!.push(item);\<close>\<close>

fun pushItem :: "AnalysisItem \<Rightarrow> ChaptersMap \<Rightarrow> ChaptersMap" where
  "pushItem item [] = [(ChapterNumber item, [item])]"
| "pushItem item ((k, sentences) # rest) =
     (if k = ChapterNumber item then (k, sentences @ [item]) # rest
      else (k, sentences) # pushItem item rest)"

text \<open>\<^verbatim>\<open>data.Analysis.forEach\<close>: the first failure ends the loop. The map is
  \<^term>\<open>None\<close> once an entry had no typed result; the loop still runs on, as the code
  does, to find a failure.\<close>

fun loadItems ::
  "(nat \<Rightarrow> int) \<Rightarrow> (nat \<Rightarrow> string) \<Rightarrow> nat \<Rightarrow> json list \<Rightarrow> ChaptersMap option \<Rightarrow>
   js_error + ChaptersMap option" where
  "loadItems clock uid n [] m = Inr m"
| "loadItems clock uid n (rawItem # rest) m =
     (case importItem clock uid n rawItem of
        Inl e \<Rightarrow> Inl e
      | Inr (item, n1) \<Rightarrow>
          loadItems clock uid n1 rest
            (case (m, item) of (Some newChaptersMap, Some i) \<Rightarrow> Some (pushItem i newChaptersMap)
             | _ \<Rightarrow> None))"

definition sortChapters :: "ChaptersMap \<Rightarrow> ChaptersMap" where
  "sortChapters m = map (\<lambda>(chapterNum, sentences). (chapterNum, sort_key SentenceNumber sentences)) m"

text \<open>The body of the \<^verbatim>\<open>try\<close> block of \<^verbatim>\<open>handleFileLoad\<close>: the new story and the
  retained "complete story" block, a thrown error, or no typed result.\<close>

definition buildStory ::
  "(nat \<Rightarrow> int) \<Rightarrow> (nat \<Rightarrow> string) \<Rightarrow> json \<Rightarrow> js_error + (ProcessedStoryData \<times> json) option" where
  "buildStory clock uid data =
     (case getProp data ''Analysis'' of
        Inl e \<Rightarrow> Inl e
      | Inr (Some (JArr rawItems)) \<Rightarrow>
          (case loadItems clock uid 0 rawItems (Some []) of
             Inl e \<Rightarrow> Inl e
           | Inr m \<Rightarrow>
               (case getProp data ''The Complete Story'' of
                  Inl e \<Rightarrow> Inl e
                | Inr None \<Rightarrow> Inl TypeError
                | Inr (Some completeStory) \<Rightarrow>
                    (case getProp completeStory ''Title'' of
                       Inl e \<Rightarrow> Inl e
                     | Inr titleValue \<Rightarrow>
                         Inr (case (m, asString titleValue) of
                                (Some newChaptersMap, Some t) \<Rightarrow>
                                  Some (\<lparr>title = t, chapters = sortChapters newChaptersMap\<rparr>,
                                        completeStory)
                              | _ \<Rightarrow> None))))
      | Inr _ \<Rightarrow> Inl TypeError)"

definition handleFileLoad ::
  "(nat \<Rightarrow> int) \<Rightarrow> (nat \<Rightarrow> string) \<Rightarrow> json \<Rightarrow> app_state \<Rightarrow> app_state option" where
  "handleFileLoad clock uid data st =
     (let st1 = st\<lparr>isLoading := True, error := None, editMode := SingleMode,
                   bulkSelectedSentenceIds := [], selectedAnalysisItem := None\<rparr>
      in case buildStory clock uid data of
           Inl e \<Rightarrow>
             Some (st1\<lparr>error := Some (ErrorProcessingStoryData e), storyData := None,
                       originalCompleteStory := None, isLoading := False\<rparr>)
         | Inr None \<Rightarrow> None
         | Inr (Some (sd, completeStory)) \<Rightarrow>
             Some (st1\<lparr>storyData := Some sd, originalCompleteStory := Some completeStory,
                       isLoading := False\<rparr>))"

definition handleProcessingError :: "app_error \<Rightarrow> app_state \<Rightarrow> app_state" where
  "handleProcessingError errorMessage st =
     st\<lparr>error := Some errorMessage, storyData := None, originalCompleteStory := None,
        isLoading := False\<rparr>"

text \<open>What the \<^verbatim>\<open>FileReader\<close> delivers to \<^verbatim>\<open>processFile\<close>: an error, a result that
  is not a string, or a text, given by what \<^verbatim>\<open>JSON.parse\<close> makes of it (\<^term>\<open>None\<close>
  when it throws a \<^verbatim>\<open>SyntaxError\<close>).\<close>

datatype file_event = ReaderError | ResultNotString | ResultText "json option"

text \<open>The basic validation of \<^verbatim>\<open>processFile\<close>.\<close>

definition basicValidation :: "json \<Rightarrow> js_error option" where
  "basicValidation parsedData =
     (case getProp parsedData ''Analysis'' of
        Inl e \<Rightarrow> Some e
      | Inr analysis \<Rightarrow>
          if \<not> truthyOpt analysis then Some MissingRequiredFields
          else if \<not> truthyOpt (ownProp parsedData ''The Complete Story'') then Some MissingRequiredFields
          else if \<not> truthyOpt (ownProp (the (ownProp parsedData ''The Complete Story'')) ''Title'')
          then Some MissingRequiredFields
          else (case analysis of Some (JArr xs) \<Rightarrow> None | _ \<Rightarrow> Some AnalysisNotArray))"

definition processFile ::
  "(nat \<Rightarrow> int) \<Rightarrow> (nat \<Rightarrow> string) \<Rightarrow> file_event \<Rightarrow> app_state \<Rightarrow> app_state option" where
  "processFile clock uid ev st =
     (case ev of
        ReaderError \<Rightarrow> Some (handleProcessingError ErrorReadingFile st)
      | ResultNotString \<Rightarrow> Some (handleProcessingError (ErrorParsingJSON FailedToReadFileContent) st)
      | ResultText None \<Rightarrow> Some (handleProcessingError (ErrorParsingJSON SyntaxError) st)
      | ResultText (Some parsedData) \<Rightarrow>
          (case basicValidation parsedData of
             Some e \<Rightarrow> Some (handleProcessingError (ErrorParsingJSON e) st)
           | None \<Rightarrow> handleFileLoad clock uid parsedData st))"

section \<open>Properties stated about the container\<close>

text \<open>Group consistency: comment instances that carry the same group id have the same
  text and the same timestamp.\<close>

definition groupConsistent :: "ChaptersMap \<Rightarrow> bool" where
  "groupConsistent m =
     list_all (\<lambda>c. list_all (\<lambda>c'. groupId c \<noteq> None \<and> groupId c = groupId c'
                                  \<longrightarrow> text_c c = text_c c' \<and> timestamp c = timestamp c')
                       (allComments m))
       (allComments m)"

definition storyChapters :: "app_state \<Rightarrow> ChaptersMap" where
  "storyChapters st = (case storyData st of None \<Rightarrow> [] | Some sd \<Rightarrow> chapters sd)"

section \<open>A small story\<close>

text \<open>One chapter of three sentences; the first and the third carry the two instances of
  one group comment, the second a single comment.\<close>

definition exC1 :: CommentObject where
  "exC1 = \<lparr>id_c = ''c1'', text_c = ''tighten pacing'', type_c = Group, timestamp = 100,
           groupId = Some ''g1'', appliesToSentenceNumbers = Some [1, 3]\<rparr>"

definition exC3 :: CommentObject where
  "exC3 = \<lparr>id_c = ''c3'', text_c = ''tighten pacing'', type_c = Group, timestamp = 100,
           groupId = Some ''g1'', appliesToSentenceNumbers = Some [1, 3]\<rparr>"

definition exC2 :: CommentObject where
  "exC2 = \<lparr>id_c = ''c2'', text_c = ''check the tense'', type_c = Single, timestamp = 50,
           groupId = None, appliesToSentenceNumbers = None\<rparr>"

definition exSentence :: "int \<Rightarrow> string \<Rightarrow> CommentObject list \<Rightarrow> AnalysisItem" where
  "exSentence n i cs = \<lparr>id_s = i, Sentence = ''Once upon a time.'', ChapterNumber = 1,
      SentenceNumber = n, additionalAnalysis = [], comments = cs\<rparr>"

definition exStory :: ProcessedStoryData where
  "exStory = \<lparr>title = ''Tale'',
     chapters = [(1, [exSentence 1 ''ch1-s1'' [exC1], exSentence 2 ''ch1-s2'' [exC2],
                      exSentence 3 ''ch1-s3'' [exC3]])]\<rparr>"

definition exState :: app_state where
  "exState = \<lparr>storyData = Some exStory,
     originalCompleteStory = Some (JObj [(''Title'', JStr ''Tale'')]),
     selectedAnalysisItem = None, isModalOpen = True, error = None, isLoading = False,
     editMode = SingleMode, bulkSelectedSentenceIds = []\<rparr>"

definition exGroupState :: app_state where
  "exGroupState = exState\<lparr>editMode := GroupMode, bulkSelectedSentenceIds := [''ch1-s1'', ''ch1-s2'']\<rparr>"

text \<open>The small story with the empty string for the group id of its group comment, as an
  imported comment history can carry it.\<close>

definition exEmptyGroupState :: app_state where
  "exEmptyGroupState = exState\<lparr>storyData := Some \<lparr>title = ''Tale'',
     chapters = [(1, [exSentence 1 ''ch1-s1'' [exC1\<lparr>groupId := Some []\<rparr>],
                      exSentence 2 ''ch1-s2'' [exC2],
                      exSentence 3 ''ch1-s3'' [exC3\<lparr>groupId := Some []\<rparr>]])]\<rparr>\<rparr>"

definition exUid :: "nat \<Rightarrow> string" where
  "exUid k = ''r'' @ replicate k (CHR ''x'')"

text \<open>A chapter in which a sentence is numbered \<open>-1\<close>, both sentences selected for a group
  comment.\<close>

definition exNegState :: app_state where
  "exNegState = \<lparr>storyData = Some \<lparr>title = ''Tale'',
       chapters = [(1, [exSentence (- 1) ''ch1-s-1'' [], exSentence 1 ''ch1-s1'' []])]\<rparr>,
     originalCompleteStory = Some (JObj [(''Title'', JStr ''Tale'')]),
     selectedAnalysisItem = None, isModalOpen = True, error = None, isLoading = False,
     editMode = GroupMode, bulkSelectedSentenceIds = [''ch1-s-1'', ''ch1-s1'']\<rparr>"

text \<open>A sentence whose only comment is a group comment with an empty list of sentence
  numbers, as the import of the legacy fields \<^verbatim>\<open>comment: "slow"\<close>,
  \<^verbatim>\<open>"comment applies to sentences": "all"\<close> makes it; and one whose latest comment has an
  empty text.\<close>

definition exLegacyState :: app_state where
  "exLegacyState = \<lparr>storyData = Some \<lparr>title = ''Tale'',
       chapters = [(1, [exSentence 1 ''ch1-s1''
                          [\<lparr>id_c = ''id-a'', text_c = ''slow'', type_c = Group, timestamp = 7,
                            groupId = Some ''id-b'', appliesToSentenceNumbers = Some []\<rparr>],
                        exSentence 2 ''ch1-s2''
                          [\<lparr>id_c = ''id-c'', text_c = [], type_c = Single, timestamp = 9,
                            groupId = None, appliesToSentenceNumbers = None\<rparr>]])]\<rparr>,
     originalCompleteStory = Some (JObj [(''Title'', JStr ''Tale'')]),
     selectedAnalysisItem = None, isModalOpen = False, error = None, isLoading = False,
     editMode = SingleMode, bulkSelectedSentenceIds = []\<rparr>"

text \<open>A sentence with two comments, the later one a group comment.\<close>

definition exTwoComments :: AnalysisItem where
  "exTwoComments = exSentence 3 ''ch1-s3'' [exC2, exC3]"

section \<open>Equivalence of stories across a round trip\<close>




section \<open>Documents\<close>


text \<open>The same document with the chapter number of the first entry given as a string.\<close>

definition exBadChapter :: json where
  "exBadChapter = JObj
     [(''Analysis'', JArr
        [JObj [(''Sentence'', JStr ''The end.''), (''Chapter Number'', JStr ''two''),
               (''Sentence Number'', JNum 1)]]),
      (''The Complete Story'', JObj [(''Title'', JStr ''Tale'')])]"

definition exClock :: "nat \<Rightarrow> int" where
  "exClock k = 1000 + int k"

section \<open>Well-formed containers\<close>





section \<open>Auxiliary facts\<close>

lemma findIndex_None_iff: "findIndex p xs = None \<longleftrightarrow> (\<forall>x \<in> set xs. \<not> p x)"
  by (induction xs) auto

lemma findIndex_Some_D:
  "findIndex p xs = Some i \<Longrightarrow> i < length xs \<and> p (xs ! i) \<and> (\<forall>j < i. \<not> p (xs ! j))"
proof (induction xs arbitrary: i)
  case Nil
  then show ?case by simp
next
  case (Cons x xs)
  show ?case
  proof (cases "p x")
    case True
    with Cons.prems show ?thesis by simp
  next
    case False
    with Cons.prems obtain k where k: "findIndex p xs = Some k" "i = Suc k"
      by auto
    from Cons.IH [OF k(1)] False k(2) show ?thesis
      by (auto simp: less_Suc_eq_0_disj)
  qed
qed


lemma findIndex_append:
  "findIndex p (xs @ ys) =
     (case findIndex p xs of Some i \<Rightarrow> Some i
      | None \<Rightarrow> (case findIndex p ys of None \<Rightarrow> None | Some j \<Rightarrow> Some (length xs + j)))"
  by (induction xs) (auto split: option.splits)


lemma updateFirstMatch_keys: "map fst (updateFirstMatch p f m) = map fst m"
  by (induction m) (auto split: option.splits)

lemma updateFirstMatch_lengths:
  "map (\<lambda>e. length (snd e)) (updateFirstMatch p f m) = map (\<lambda>e. length (snd e)) m"
  by (induction m) (auto split: option.splits)

lemma allSentences_updateFirstMatch:
  "allSentences (updateFirstMatch p f m) =
     (case findIndex p (allSentences m) of
        None \<Rightarrow> allSentences m
      | Some i \<Rightarrow> (allSentences m)[i := f (allSentences m ! i)])"
proof (induction m)
  case Nil
  then show ?case by (simp add: allSentences_def)
next
  case (Cons e m)
  obtain k ss where e: "e = (k, ss)" by (cases e)
  show ?case
  proof (cases "findIndex p ss")
    case None
    with Cons e show ?thesis
      by (auto simp: allSentences_def findIndex_append list_update_append split: option.splits)
  next
    case (Some i)
    with findIndex_Some_D [OF Some] e show ?thesis
      by (auto simp: allSentences_def findIndex_append list_update_append nth_append)
  qed
qed

lemma updateFirstMatch_id:
  "(\<And>s. s \<in> set (allSentences m) \<Longrightarrow> p s \<Longrightarrow> f s = s) \<Longrightarrow> updateFirstMatch p f m = m"
proof (induction m)
  case Nil
  then show ?case by simp
next
  case (Cons e m)
  obtain k ss where e: "e = (k, ss)" by (cases e)
  show ?case
  proof (cases "findIndex p ss")
    case None
    with Cons e show ?thesis by (auto simp: allSentences_def)
  next
    case (Some i)
    from findIndex_Some_D [OF Some] have "i < length ss" "p (ss ! i)" by auto
    with Cons.prems [of "ss ! i"] e have "f (ss ! i) = ss ! i"
      by (auto simp: allSentences_def)
    with Some e show ?thesis by simp
  qed
qed

lemma updateFirstMatch_no_match:
  "\<forall>s \<in> set (allSentences m). \<not> p s \<Longrightarrow> updateFirstMatch p f m = m"
  by (rule updateFirstMatch_id) auto

lemmas exDefs = exState_def exGroupState_def exStory_def exSentence_def exC1_def exC2_def exC3_def

lemma trim_example: "trim ''cut entirely'' = ''cut entirely''"
  by (simp add: trim_def isWhiteSpace_def)

lemma editSingle_absent:
  assumes "\<forall>c \<in> set (allComments m). id_c c \<noteq> editId"
  shows "editSingle editId t now m = m"
  unfolding editSingle_def
  by (rule updateFirstMatch_no_match) (use assms in \<open>auto simp: hasCommentId_def allComments_def list_ex_iff\<close>)

lemma find_absent:
  assumes "\<forall>c \<in> set (allComments m). id_c c \<noteq> editId"
  shows "find (hasCommentId editId) (allSentences m) = None"
  using assms by (auto simp: find_None_iff hasCommentId_def allComments_def list_ex_iff)

section \<open>Editing a group comment\<close>

lemma editGroupSentence_eq:
  "editGroupSentence editId g t now s =
     s\<lparr>comments := map (\<lambda>c. if groupId c = Some g then c\<lparr>text_c := t, timestamp := now\<rparr> else c) (comments s)\<rparr>"
proof -
  have "\<not> list_ex (\<lambda>c. groupId c = Some g) (comments s) \<Longrightarrow>
          map (\<lambda>c. if groupId c = Some g then c\<lparr>text_c := t, timestamp := now\<rparr> else c) (comments s) = comments s"
    by (auto simp: list_ex_iff intro: map_idI)
  then show ?thesis
    by (auto simp: editGroupSentence_def updateGroupComments_def retext_def)
qed

lemma editGroup_eq:
  "editGroup editId g t now m =
     map (\<lambda>(k, ss). (k, map (\<lambda>s. s\<lparr>comments :=
        map (\<lambda>c. if groupId c = Some g then c\<lparr>text_c := t, timestamp := now\<rparr> else c) (comments s)\<rparr>) ss)) m"
proof -
  have "editGroupSentence editId g t now =
          (\<lambda>s. s\<lparr>comments := map (\<lambda>c. if groupId c = Some g then c\<lparr>text_c := t, timestamp := now\<rparr> else c) (comments s)\<rparr>)"
    by (rule ext) (rule editGroupSentence_eq)
  then show ?thesis by (simp add: editGroup_def)
qed

lemma allComments_map_comments:
  "allComments (map (\<lambda>(k, ss). (k, map (\<lambda>s. s\<lparr>comments := F (comments s)\<rparr>) ss)) m)
     = concat (map (\<lambda>s. F (comments s)) (allSentences m))"
  by (induction m) (auto simp: allComments_def allSentences_def comp_def)

lemma allComments_editGroup:
  "allComments (editGroup editId g t now m)
     = map (\<lambda>c. if groupId c = Some g then c\<lparr>text_c := t, timestamp := now\<rparr> else c) (allComments m)"
  unfolding editGroup_eq allComments_map_comments
  by (simp add: allComments_def map_concat comp_def)

text \<open>Claim C3, as stated: an edit that names an existing group comment by its comment id and
  its group id rewrites every instance that shares the group id. The handler takes the
  group id for supplied only when it is truthy. In the small story with the empty string
  as group id, the edit of the first instance, made with that group id, rewrites the first
  instance alone.\<close>

theorem group_edit_with_empty_group_id:
  "map (\<lambda>c. (id_c c, type_c c, groupId c, text_c c, timestamp c))
       (allComments (storyChapters exEmptyGroupState))
     = [(''c1'', Group, Some [], ''tighten pacing'', 100), (''c2'', Single, None, ''check the tense'', 50),
        (''c3'', Group, Some [], ''tighten pacing'', 100)]
   \<and> map (\<lambda>c. (id_c c, type_c c, groupId c, text_c c, timestamp c))
       (allComments (storyChapters
          (handleSaveOrUpdateComment 200 (\<lambda>k. ''r'') ''cut entirely'' (Some (''c1'', Some []))
             exEmptyGroupState)))
     = [(''c1'', Group, Some [], ''cut entirely'', 200), (''c2'', Single, None, ''check the tense'', 50),
        (''c3'', Group, Some [], ''tighten pacing'', 100)]"
  by (simp add: exEmptyGroupState_def exDefs storyChapters_def allComments_def allSentences_def
      handleSaveOrUpdateComment_def trim_example editSingle_def hasCommentId_def editSingleItem_def
      retext_def)

text \<open>Claim C3, amended: an edit that names a group comment by its comment id and a group id
  that is not the empty string, with a text that is not blank, replaces the text and the
  timestamp of every comment instance that shares the group id, in every sentence of every
  chapter, in one step of the handler; afterwards every instance of the group carries the
  new text and the edit time. Nothing else in the container changes.\<close>

theorem group_edit_propagates:
  assumes "storyData st = Some sd" and "trim commentText \<noteq> []" and "g \<noteq> []"
  shows "\<exists>m'. storyData (handleSaveOrUpdateComment now uid commentText (Some (editId, Some g)) st)
                  = Some (sd\<lparr>chapters := m'\<rparr>)
           \<and> m' = map (\<lambda>(k, ss). (k, map (\<lambda>s. s\<lparr>comments :=
                     map (\<lambda>c. if groupId c = Some g
                              then c\<lparr>text_c := trim commentText, timestamp := now\<rparr> else c)
                       (comments s)\<rparr>) ss)) (chapters sd)
           \<and> (\<forall>c \<in> set (allComments m').
                 groupId c = Some g \<longrightarrow> text_c c = trim commentText \<and> timestamp c = now)"
proof (intro exI conjI)
  show "storyData (handleSaveOrUpdateComment now uid commentText (Some (editId, Some g)) st)
          = Some (sd\<lparr>chapters := editGroup editId g (trim commentText) now (chapters sd)\<rparr>)"
    using assms by (simp add: handleSaveOrUpdateComment_def Let_def)
  show "editGroup editId g (trim commentText) now (chapters sd)
          = map (\<lambda>(k, ss). (k, map (\<lambda>s. s\<lparr>comments :=
                     map (\<lambda>c. if groupId c = Some g
                              then c\<lparr>text_c := trim commentText, timestamp := now\<rparr> else c)
                       (comments s)\<rparr>) ss)) (chapters sd)"
    by (rule editGroup_eq)
  show "\<forall>c \<in> set (allComments (editGroup editId g (trim commentText) now (chapters sd))).
          groupId c = Some g \<longrightarrow> text_c c = trim commentText \<and> timestamp c = now"
    by (auto simp: allComments_editGroup)
qed

theorem group_edit_propagates_witness:
  "storyData exState = Some exStory \<and> trim ''cut entirely'' \<noteq> [] \<and> ''g1'' \<noteq> []
   \<and> (\<exists>m'. storyData (handleSaveOrUpdateComment 200 (\<lambda>k. ''r'') ''cut entirely''
                         (Some (''c1'', Some ''g1'')) exState)
                  = Some (exStory\<lparr>chapters := m'\<rparr>)
           \<and> m' = map (\<lambda>(k, ss). (k, map (\<lambda>s. s\<lparr>comments :=
                     map (\<lambda>c. if groupId c = Some ''g1''
                              then c\<lparr>text_c := trim ''cut entirely'', timestamp := 200\<rparr> else c)
                       (comments s)\<rparr>) ss)) (chapters exStory)
           \<and> (\<forall>c \<in> set (allComments m').
                 groupId c = Some ''g1'' \<longrightarrow> text_c c = trim ''cut entirely'' \<and> timestamp c = 200))
   \<and> allComments (chapters (the (storyData (handleSaveOrUpdateComment 200 (\<lambda>k. ''r'') ''cut entirely''
                         (Some (''c1'', Some ''g1'')) exState))))
       = [exC1\<lparr>text_c := ''cut entirely'', timestamp := 200\<rparr>, exC2,
          exC3\<lparr>text_c := ''cut entirely'', timestamp := 200\<rparr>]"
proof -
  have h1: "storyData exState = Some exStory" by (simp add: exState_def)
  have h2: "trim ''cut entirely'' \<noteq> []" by (simp add: trim_example)
  have h3: "''g1'' \<noteq> []" by simp
  from group_edit_propagates [OF h1 h2 h3, of 200 "\<lambda>k. ''r''" "''c1''"]
  show ?thesis
    using h1 h2
    by (auto simp: exStory_def exSentence_def exC1_def exC2_def exC3_def allComments_def allSentences_def trim_example)
qed

section \<open>Editing a group comment without its group id\<close>




section \<open>Editing a comment that does not exist\<close>

lemma editGroup_absent:
  assumes "\<forall>c \<in> set (allComments m). groupId c \<noteq> Some g"
  shows "editGroup editId g t now m = m"
proof -
  have "\<And>k ss. (k, ss) \<in> set m \<Longrightarrow>
          map (\<lambda>s. s\<lparr>comments := map (\<lambda>c. if groupId c = Some g then c\<lparr>text_c := t, timestamp := now\<rparr> else c)
                 (comments s)\<rparr>) ss = ss"
  proof -
    fix k ss assume m: "(k, ss) \<in> set m"
    have "\<And>s. s \<in> set ss \<Longrightarrow>
            map (\<lambda>c. if groupId c = Some g then c\<lparr>text_c := t, timestamp := now\<rparr> else c) (comments s)
              = comments s"
      using assms m by (intro map_idI) (force simp: allComments_def allSentences_def)
    then show "map (\<lambda>s. s\<lparr>comments := map (\<lambda>c. if groupId c = Some g then c\<lparr>text_c := t, timestamp := now\<rparr> else c)
                 (comments s)\<rparr>) ss = ss"
      by (intro map_idI) simp
  qed
  then show ?thesis
    unfolding editGroup_eq by (intro map_idI) auto
qed

text \<open>Claim C7, as stated: an edit whose comment id exists on no comment fails and signals a
  not-found condition to the caller. The handler has no such signal. In the small story,
  editing the unknown id \<open>nope\<close> records no error and leaves the story as it was.\<close>

theorem edit_unknown_id_signals_nothing: "error (handleSaveOrUpdateComment 200 (\<lambda>k. ''r'') ''cut entirely'' (Some (''nope'', None)) exState) = None
  \<and> storyData (handleSaveOrUpdateComment 200 (\<lambda>k. ''r'') ''cut entirely'' (Some (''nope'', None)) exState) = storyData exState"
  by (simp add: handleSaveOrUpdateComment_def exState_def exStory_def exSentence_def exC1_def exC2_def exC3_def
      trim_example editSingle_def hasCommentId_def allSentences_def)

text \<open>Claim C7, amended: an edit whose comment id exists on no comment does not fail and
  signals nothing, whatever group id comes with it: the handler returns normally and the
  recorded error is the one it found. With a blank text the state is returned as it was.
  Otherwise, without a group id (or with the empty string for it) the container is
  unchanged and only the modal is closed; with a group id that is not the empty string
  every comment that carries this group id gets the new text and the edit time although
  no comment has the given id, and the container is unchanged when no comment carries the
  group id either.\<close>

theorem edit_absent_id_is_silent:
  assumes "storyData st = Some sd"
    and "\<forall>c \<in> set (allComments (chapters sd)). id_c c \<noteq> editId"
  shows "error (handleSaveOrUpdateComment now uid commentText (Some (editId, g)) st) = error st
     \<and> (trim commentText = [] \<longrightarrow>
          handleSaveOrUpdateComment now uid commentText (Some (editId, g)) st = st)
     \<and> (trim commentText \<noteq> [] \<and> (g = None \<or> g = Some []) \<longrightarrow>
          handleSaveOrUpdateComment now uid commentText (Some (editId, g)) st = st\<lparr>isModalOpen := False\<rparr>)
     \<and> (\<forall>g'. trim commentText \<noteq> [] \<and> g = Some g' \<and> g' \<noteq> [] \<longrightarrow>
          handleSaveOrUpdateComment now uid commentText (Some (editId, g)) st
            = st\<lparr>storyData := Some (sd\<lparr>chapters :=
                    map (\<lambda>(k, ss). (k, map (\<lambda>s. s\<lparr>comments :=
                       map (\<lambda>c. if groupId c = Some g'
                                then c\<lparr>text_c := trim commentText, timestamp := now\<rparr> else c)
                         (comments s)\<rparr>) ss)) (chapters sd)\<rparr>),
                 selectedAnalysisItem :=
                   selectedAnalysisItem (handleSaveOrUpdateComment now uid commentText (Some (editId, g)) st),
                 isModalOpen := False\<rparr>
          \<and> ((\<forall>c \<in> set (allComments (chapters sd)). groupId c \<noteq> Some g') \<longrightarrow>
               handleSaveOrUpdateComment now uid commentText (Some (editId, g)) st
                 = st\<lparr>isModalOpen := False\<rparr>))"
proof (intro conjI impI allI)
  let ?h = "handleSaveOrUpdateComment now uid commentText (Some (editId, g)) st"
  have sd: "sd\<lparr>chapters := chapters sd\<rparr> = sd" by simp
  have st: "st\<lparr>storyData := Some sd\<rparr> = st" using assms(1) by (cases st) simp
  show "error ?h = error st"
    using assms(1) by (simp add: handleSaveOrUpdateComment_def Let_def split: option.splits)
  show "trim commentText = [] \<Longrightarrow> ?h = st"
    using assms(1) by (simp add: handleSaveOrUpdateComment_def)
  show "?h = st\<lparr>isModalOpen := False\<rparr>" if "trim commentText \<noteq> [] \<and> (g = None \<or> g = Some [])"
  proof -
    have "?h = st\<lparr>storyData := Some sd, selectedAnalysisItem := selectedAnalysisItem st, isModalOpen := False\<rparr>"
      using assms that by (auto simp: handleSaveOrUpdateComment_def Let_def editSingle_absent find_absent sd
          split: option.splits)
    also have "\<dots> = st\<lparr>isModalOpen := False\<rparr>" using st by (cases st) simp
    finally show ?thesis .
  qed
  fix g'
  assume a: "trim commentText \<noteq> [] \<and> g = Some g' \<and> g' \<noteq> []"
  show "?h = st\<lparr>storyData := Some (sd\<lparr>chapters :=
                    map (\<lambda>(k, ss). (k, map (\<lambda>s. s\<lparr>comments :=
                       map (\<lambda>c. if groupId c = Some g'
                                then c\<lparr>text_c := trim commentText, timestamp := now\<rparr> else c)
                         (comments s)\<rparr>) ss)) (chapters sd)\<rparr>),
                 selectedAnalysisItem := selectedAnalysisItem ?h,
                 isModalOpen := False\<rparr>"
  proof -
    define X where "X = (case (case selectedAnalysisItem st of None \<Rightarrow> None
                               | Some sel \<Rightarrow> groupEditedItem editId g' (trim commentText) now (id_s sel) (chapters sd)) of
                          None \<Rightarrow> selectedAnalysisItem st | Some it \<Rightarrow> Some it)"
    have hh: "?h = st\<lparr>storyData := Some (sd\<lparr>chapters := editGroup editId g' (trim commentText) now (chapters sd)\<rparr>),
                     selectedAnalysisItem := X, isModalOpen := False\<rparr>"
      using assms(1) a by (simp add: handleSaveOrUpdateComment_def Let_def X_def)
    have sel: "selectedAnalysisItem ?h = X" by (simp add: hh)
    from hh show ?thesis
      unfolding sel editGroup_eq .
  qed
  show "?h = st\<lparr>isModalOpen := False\<rparr>"
    if none: "\<forall>c \<in> set (allComments (chapters sd)). groupId c \<noteq> Some g'"
  proof -
    have ns: "\<not> list_ex (\<lambda>c. groupId c = Some g') (comments s)" if "s \<in> set (allSentences (chapters sd))" for s
      using none that by (auto simp: allComments_def list_ex_iff)
    have flt: "filter (\<lambda>s. id_s s = x \<and> list_ex (\<lambda>c. groupId c = Some g') (comments s))
                 (allSentences (chapters sd)) = []" for x
      using ns by (auto simp: filter_empty_conv)
    have "?h = st\<lparr>storyData := Some sd, selectedAnalysisItem := selectedAnalysisItem st, isModalOpen := False\<rparr>"
      using assms(1) a
      by (auto simp: handleSaveOrUpdateComment_def Let_def editGroup_absent [OF none] groupEditedItem_def flt sd
          split: option.splits)
    also have "\<dots> = st\<lparr>isModalOpen := False\<rparr>" using st by (cases st) simp
    finally show ?thesis .
  qed
qed

theorem edit_absent_id_is_silent_witness:
  "storyData exState = Some exStory
   \<and> list_all (\<lambda>c. id_c c \<noteq> ''nope'') (allComments (chapters exStory))
   \<and> trim ''cut entirely'' \<noteq> [] \<and> trim '' '' = []
   \<and> handleSaveOrUpdateComment 200 (\<lambda>k. ''r'') '' '' (Some (''nope'', None)) exState = exState
   \<and> handleSaveOrUpdateComment 200 (\<lambda>k. ''r'') ''cut entirely'' (Some (''nope'', None)) exState
       = exState\<lparr>isModalOpen := False\<rparr>
   \<and> handleSaveOrUpdateComment 200 (\<lambda>k. ''r'') ''cut entirely'' (Some (''nope'', Some ''g9'')) exState
       = exState\<lparr>isModalOpen := False\<rparr>
   \<and> handleSaveOrUpdateComment 200 (\<lambda>k. ''r'') ''cut entirely'' (Some (''nope'', Some ''g1'')) exState
       = exState\<lparr>storyData := Some (exStory\<lparr>chapters :=
            [(1, [exSentence 1 ''ch1-s1'' [exC1\<lparr>text_c := ''cut entirely'', timestamp := 200\<rparr>],
                  exSentence 2 ''ch1-s2'' [exC2],
                  exSentence 3 ''ch1-s3'' [exC3\<lparr>text_c := ''cut entirely'', timestamp := 200\<rparr>]])]\<rparr>),
          isModalOpen := False\<rparr>
   \<and> error (handleSaveOrUpdateComment 200 (\<lambda>k. ''r'') ''cut entirely'' (Some (''nope'', Some ''g1'')) exState)
       = None"
proof -
  have h1: "storyData exState = Some exStory" by (simp add: exState_def)
  have h2: "\<forall>c \<in> set (allComments (chapters exStory)). id_c c \<noteq> ''nope''"
    by (simp add: exStory_def exSentence_def exC1_def exC2_def exC3_def allComments_def allSentences_def)
  have t1: "trim ''cut entirely'' \<noteq> []" by (simp add: trim_example)
  have t2: "trim '' '' = []" by (simp add: trim_def isWhiteSpace_def)
  have g9: "\<forall>c \<in> set (allComments (chapters exStory)). groupId c \<noteq> Some ''g9''"
    by (simp add: exStory_def exSentence_def exC1_def exC2_def exC3_def allComments_def allSentences_def)
  have sel: "selectedAnalysisItem (handleSaveOrUpdateComment 200 (\<lambda>k. ''r'') ''cut entirely''
                (Some (''nope'', Some ''g1'')) exState) = selectedAnalysisItem exState"
    by (simp add: handleSaveOrUpdateComment_def exState_def trim_example)
  have e: "error exState = None" by (simp add: exState_def)
  have same: "exState\<lparr>selectedAnalysisItem := selectedAnalysisItem exState\<rparr> = exState" by simp
  note a = edit_absent_id_is_silent [OF h1 h2, of 200 "\<lambda>k. ''r''" "'' ''" None]
  note b = edit_absent_id_is_silent [OF h1 h2, of 200 "\<lambda>k. ''r''" "''cut entirely''" None]
  note c = edit_absent_id_is_silent [OF h1 h2, of 200 "\<lambda>k. ''r''" "''cut entirely''" "Some ''g9''"]
  note d = edit_absent_id_is_silent [OF h1 h2, of 200 "\<lambda>k. ''r''" "''cut entirely''" "Some ''g1''"]
  have A: "handleSaveOrUpdateComment 200 (\<lambda>k. ''r'') '' '' (Some (''nope'', None)) exState = exState"
    using a t2 by blast
  have B: "handleSaveOrUpdateComment 200 (\<lambda>k. ''r'') ''cut entirely'' (Some (''nope'', None)) exState
             = exState\<lparr>isModalOpen := False\<rparr>"
    using b t1 by blast
  have C: "handleSaveOrUpdateComment 200 (\<lambda>k. ''r'') ''cut entirely'' (Some (''nope'', Some ''g9'')) exState
             = exState\<lparr>isModalOpen := False\<rparr>"
    using c t1 g9 by simp
  have D0: "handleSaveOrUpdateComment 200 (\<lambda>k. ''r'') ''cut entirely'' (Some (''nope'', Some ''g1'')) exState
       = exState\<lparr>storyData := Some (exStory\<lparr>chapters :=
                    map (\<lambda>(k, ss). (k, map (\<lambda>s. s\<lparr>comments :=
                       map (\<lambda>c. if groupId c = Some ''g1''
                                then c\<lparr>text_c := trim ''cut entirely'', timestamp := 200\<rparr> else c)
                         (comments s)\<rparr>) ss)) (chapters exStory)\<rparr>),
                 selectedAnalysisItem := selectedAnalysisItem exState,
                 isModalOpen := False\<rparr>"
    using d t1 unfolding sel by simp
  have D: "handleSaveOrUpdateComment 200 (\<lambda>k. ''r'') ''cut entirely'' (Some (''nope'', Some ''g1'')) exState
       = exState\<lparr>storyData := Some (exStory\<lparr>chapters :=
            [(1, [exSentence 1 ''ch1-s1'' [exC1\<lparr>text_c := ''cut entirely'', timestamp := 200\<rparr>],
                  exSentence 2 ''ch1-s2'' [exC2],
                  exSentence 3 ''ch1-s3'' [exC3\<lparr>text_c := ''cut entirely'', timestamp := 200\<rparr>]])]\<rparr>),
          isModalOpen := False\<rparr>"
    unfolding D0
    by (simp add: exState_def exStory_def exSentence_def exC1_def exC2_def exC3_def trim_example)
  have E: "error (handleSaveOrUpdateComment 200 (\<lambda>k. ''r'') ''cut entirely'' (Some (''nope'', Some ''g1'')) exState)
       = None"
    using d e by simp
  from h1 h2 t1 t2 A B C D E show ?thesis by (simp add: list_all_iff)
qed

section \<open>Deleting a comment\<close>

lemma deleteGroup_comments:
  "allComments (deleteGroup g m) = filter (\<lambda>c. groupId c \<noteq> Some g) (allComments m)"
  unfolding deleteGroup_def allComments_map_comments
  by (simp add: allComments_def filter_concat comp_def)




lemma storyChapters_delete:
  "storyData st = Some sd \<Longrightarrow>
     storyData (handleDeleteComment itemId commentId st)
       = Some (sd\<lparr>chapters := deleteFrom itemId commentId (chapters sd)\<rparr>)"
  by (simp add: handleDeleteComment_def Let_def)




section \<open>Group consistency\<close>

lemma groupConsistent_iff:
  "groupConsistent m \<longleftrightarrow>
     (\<forall>c \<in> set (allComments m). \<forall>c' \<in> set (allComments m).
        groupId c \<noteq> None \<and> groupId c = groupId c' \<longrightarrow> text_c c = text_c c' \<and> timestamp c = timestamp c')"
  by (simp add: groupConsistent_def list_all_iff)

lemma groupConsistent_extend:
  assumes "groupConsistent m"
    and "set (allComments m') \<subseteq> set (allComments m) \<union> N"
    and "\<forall>c \<in> N. \<forall>c' \<in> N. groupId c \<noteq> None \<and> groupId c = groupId c'
           \<longrightarrow> text_c c = text_c c' \<and> timestamp c = timestamp c'"
    and "\<forall>c \<in> N. \<forall>c' \<in> set (allComments m). groupId c = None \<or> groupId c \<noteq> groupId c'"
  shows "groupConsistent m'"
  unfolding groupConsistent_iff
proof (intro ballI impI)
  fix c c'
  assume c: "c \<in> set (allComments m')" and c': "c' \<in> set (allComments m')"
    and g: "groupId c \<noteq> None \<and> groupId c = groupId c'"
  from c assms(2) consider "c \<in> set (allComments m)" | "c \<in> N" by blast
  then show "text_c c = text_c c' \<and> timestamp c = timestamp c'"
  proof cases
    case 1
    from c' assms(2) consider "c' \<in> set (allComments m)" | "c' \<in> N" by blast
    then show ?thesis
    proof cases
      case 1
      with \<open>c \<in> set (allComments m)\<close> g assms(1) show ?thesis
        unfolding groupConsistent_iff by blast
    next
      case 2
      with \<open>c \<in> set (allComments m)\<close> g assms(4) show ?thesis by metis
    qed
  next
    case 2
    from c' assms(2) consider "c' \<in> set (allComments m)" | "c' \<in> N" by blast
    then show ?thesis
    proof cases
      case 1
      with \<open>c \<in> N\<close> g assms(4) show ?thesis by metis
    next
      case 2
      with \<open>c \<in> N\<close> g assms(3) show ?thesis by blast
    qed
  qed
qed

lemma groupConsistent_subset:
  "groupConsistent m \<Longrightarrow> set (allComments m') \<subseteq> set (allComments m) \<Longrightarrow> groupConsistent m'"
  by (rule groupConsistent_extend [where N = "{}"]) auto

lemma comments_updateFirstMatch_subset:
  "set (allComments (updateFirstMatch p f m))
     \<subseteq> set (allComments m) \<union> (\<Union>s \<in> {s \<in> set (allSentences m). p s}. set (comments (f s)))"
proof (cases "findIndex p (allSentences m)")
  case None
  then show ?thesis by (simp add: allComments_def allSentences_updateFirstMatch)
next
  case (Some i)
  from findIndex_Some_D [OF Some]
  have i: "i < length (allSentences m)" "p (allSentences m ! i)" by auto
  have "set ((allSentences m)[i := f (allSentences m ! i)])
          \<subseteq> insert (f (allSentences m ! i)) (set (allSentences m))"
    by (rule set_update_subset_insert)
  moreover have "allSentences m ! i \<in> set (allSentences m)" using i by simp
  ultimately show ?thesis
    using Some i by (fastforce simp: allComments_def allSentences_updateFirstMatch)
qed

lemma allSentences_mapSet_subset:
  "set (allSentences (mapSet k v m)) \<subseteq> set (allSentences m) \<union> set v"
proof (induction m)
  case Nil
  then show ?case by (simp add: allSentences_def)
next
  case (Cons e m)
  obtain k' v' where e: "e = (k', v')" by (cases e)
  show ?case
  proof (cases "k' = k")
    case True
    with e show ?thesis by (auto simp: allSentences_def)
  next
    case False
    have "set (allSentences (mapSet k v (e # m))) = set v' \<union> set (allSentences (mapSet k v m))"
      using False e by (simp add: allSentences_def)
    also have "\<dots> \<subseteq> set v' \<union> (set (allSentences m) \<union> set v)"
      using Cons.IH by blast
    also have "\<dots> = set (allSentences (e # m)) \<union> set v"
      using e by (auto simp: allSentences_def)
    finally show ?thesis .
  qed
qed

lemma map_of_allSentences:
  "map_of m k = Some ss \<Longrightarrow> set ss \<subseteq> set (allSentences m)"
  by (induction m) (auto simp: allSentences_def split: if_splits)

lemma comments_append_subset:
  "set (allComments (updateFirstMatch p (appendComment c) m)) \<subseteq> insert c (set (allComments m))"
proof
  fix x
  assume "x \<in> set (allComments (updateFirstMatch p (appendComment c) m))"
  with comments_updateFirstMatch_subset [of p "appendComment c" m]
  have "x \<in> set (allComments m)
          \<or> (\<exists>s \<in> set (allSentences m). x \<in> set (comments (appendComment c s)))"
    by blast
  then show "x \<in> insert c (set (allComments m))"
    by (auto simp: appendComment_def allComments_def)
qed

lemma bulkAdd_comments_subset:
  "set (allComments (bulkAdd mode t now g numbers uid ids n m))
     \<subseteq> set (allComments m)
       \<union> {c. text_c c = t \<and> timestamp c = now \<and> groupId c = (if mode = GroupMode then g else None)}"
proof (induction ids arbitrary: n m)
  case Nil
  then show ?case by simp
next
  case (Cons itemId ids)
  let ?N = "{c. text_c c = t \<and> timestamp c = now \<and> groupId c = (if mode = GroupMode then g else None)}"
  let ?c = "bulkComment mode t now g numbers (generateUniqueId (uid n))"
  let ?m1 = "updateFirstMatch (\<lambda>s. id_s s = itemId) (appendComment ?c) m"
  have "?c \<in> ?N" by (simp add: bulkComment_def)
  with comments_append_subset [of "\<lambda>s. id_s s = itemId" ?c m]
  have m1: "set (allComments ?m1) \<subseteq> set (allComments m) \<union> ?N"
    by blast
  show ?case
  proof (cases "list_ex (\<lambda>s. id_s s = itemId) (allSentences m)")
    case True
    then have "bulkAdd mode t now g numbers uid (itemId # ids) n m
                 = bulkAdd mode t now g numbers uid ids (Suc n) ?m1" by simp
    moreover from Cons.IH [of "Suc n" ?m1] m1
    have "set (allComments (bulkAdd mode t now g numbers uid ids (Suc n) ?m1))
            \<subseteq> set (allComments m) \<union> ?N" by blast
    ultimately show ?thesis by simp
  next
    case False
    then have "bulkAdd mode t now g numbers uid (itemId # ids) n m
                 = bulkAdd mode t now g numbers uid ids n m" by simp
    with Cons.IH [of n m] show ?thesis by simp
  qed
qed

lemma groupConsistent_ungrouped:
  assumes "groupConsistent m"
    and "set (allComments m') \<subseteq> set (allComments m) \<union> {c. groupId c = None}"
  shows "groupConsistent m'"
  by (rule groupConsistent_extend [OF assms]) auto

lemma groupConsistent_deleteFrom:
  assumes "groupConsistent m"
  shows "groupConsistent (deleteFrom itemId commentId m)"
proof -
  have g: "groupConsistent (deleteGroup g m)" for g
    by (rule groupConsistent_subset [OF assms]) (simp add: deleteGroup_comments)
  have "set (allComments (deleteSingle itemId commentId m)) \<subseteq> set (allComments m)"
    unfolding deleteSingle_def
    using comments_updateFirstMatch_subset [of "\<lambda>s. id_s s = itemId"
        "\<lambda>currentItem. currentItem\<lparr>comments := filter (\<lambda>c. id_c c \<noteq> commentId) (comments currentItem)\<rparr>" m]
    by (auto simp: allComments_def)
  then have s: "groupConsistent (deleteSingle itemId commentId m)"
    by (rule groupConsistent_subset [OF assms])
  from g s show ?thesis
    by (simp add: deleteFrom_def split: option.splits)
qed

lemma groupConsistent_editGroup:
  assumes "groupConsistent m"
  shows "groupConsistent (editGroup editId g t now m)"
  using assms unfolding groupConsistent_iff allComments_editGroup
  by (auto split: if_splits)

lemma groupConsistent_editSingle:
  assumes "groupConsistent m"
    and "\<forall>c \<in> set (allComments m). id_c c = editId \<longrightarrow> groupId c = None"
  shows "groupConsistent (editSingle editId t now m)"
proof (rule groupConsistent_ungrouped [OF assms(1)], rule subsetI)
  fix x
  assume "x \<in> set (allComments (editSingle editId t now m))"
  with comments_updateFirstMatch_subset [of "hasCommentId editId" "editSingleItem editId t now" m]
  have "x \<in> set (allComments m)
          \<or> (\<exists>s \<in> set (allSentences m). x \<in> set (comments (editSingleItem editId t now s)))"
    unfolding editSingle_def by blast
  then show "x \<in> set (allComments m) \<union> {c. groupId c = None}"
  proof
    assume "x \<in> set (allComments m)"
    then show ?thesis by simp
  next
    assume "\<exists>s \<in> set (allSentences m). x \<in> set (comments (editSingleItem editId t now s))"
    then obtain s c where s: "s \<in> set (allSentences m)" and c: "c \<in> set (comments s)"
      and x: "x = (if id_c c = editId then retext t now c else c)"
      by (auto simp: editSingleItem_def)
    from s c have "c \<in> set (allComments m)" by (auto simp: allComments_def)
    with x assms(2) show ?thesis by (auto simp: retext_def)
  qed
qed

lemma groupConsistent_addSingle:
  assumes "groupConsistent m" and "map_of m k = Some ss" and "i < length ss" and "groupId c = None"
  shows "groupConsistent (mapSet k (ss[i := appendComment c (ss ! i)]) m)"
proof (rule groupConsistent_ungrouped [OF assms(1)], rule subsetI)
  fix x
  assume "x \<in> set (allComments (mapSet k (ss[i := appendComment c (ss ! i)]) m))"
  then obtain s where s: "s \<in> set (allSentences (mapSet k (ss[i := appendComment c (ss ! i)]) m))"
    and x: "x \<in> set (comments s)"
    by (auto simp: allComments_def)
  from s allSentences_mapSet_subset [of k "ss[i := appendComment c (ss ! i)]" m]
  have "s \<in> set (allSentences m) \<or> s \<in> set (ss[i := appendComment c (ss ! i)])" by blast
  moreover have "set (ss[i := appendComment c (ss ! i)]) \<subseteq> insert (appendComment c (ss ! i)) (set ss)"
    by (rule set_update_subset_insert)
  moreover have "set ss \<subseteq> set (allSentences m)" by (rule map_of_allSentences [OF assms(2)])
  moreover have "ss ! i \<in> set ss" using assms(3) by simp
  ultimately have "s \<in> set (allSentences m) \<or> s = appendComment c (ss ! i) \<and> ss ! i \<in> set (allSentences m)"
    by blast
  with x assms(4) show "x \<in> set (allComments m) \<union> {c. groupId c = None}"
    by (auto simp: allComments_def appendComment_def)
qed

lemma groupConsistent_bulkAdd:
  assumes "groupConsistent m"
    and "mode = GroupMode \<longrightarrow> (\<forall>c \<in> set (allComments m). groupId c \<noteq> g)"
  shows "groupConsistent (bulkAdd mode t now g numbers uid ids n m)"
proof (rule groupConsistent_extend [OF assms(1) bulkAdd_comments_subset])
  show "\<forall>c\<in>{c. text_c c = t \<and> timestamp c = now \<and> groupId c = (if mode = GroupMode then g else None)}.
          \<forall>c'\<in>{c. text_c c = t \<and> timestamp c = now \<and> groupId c = (if mode = GroupMode then g else None)}.
            groupId c \<noteq> None \<and> groupId c = groupId c' \<longrightarrow> text_c c = text_c c' \<and> timestamp c = timestamp c'"
    by simp
  show "\<forall>c\<in>{c. text_c c = t \<and> timestamp c = now \<and> groupId c = (if mode = GroupMode then g else None)}.
          \<forall>c'\<in>set (allComments m). groupId c = None \<or> groupId c \<noteq> groupId c'"
    using assms(2) by auto
qed

lemma save_blank:
  "trim commentText = [] \<Longrightarrow> handleSaveOrUpdateComment now uid commentText detail st = st"
  by (simp add: handleSaveOrUpdateComment_def split: option.splits)

lemma save_no_story:
  "storyData st = None \<Longrightarrow> handleSaveOrUpdateComment now uid commentText detail st = st"
  by (simp add: handleSaveOrUpdateComment_def)

lemma save_edit_group:
  assumes "storyData st = Some sd" and "trim commentText \<noteq> []" and "g \<noteq> []"
  shows "storyChapters (handleSaveOrUpdateComment now uid commentText (Some (editId, Some g)) st)
           = editGroup editId g (trim commentText) now (chapters sd)"
  using assms by (simp add: handleSaveOrUpdateComment_def storyChapters_def Let_def)

lemma save_edit_single:
  assumes "storyData st = Some sd" and "trim commentText \<noteq> []" and "g = None \<or> g = Some []"
  shows "storyChapters (handleSaveOrUpdateComment now uid commentText (Some (editId, g)) st)
           = editSingle editId (trim commentText) now (chapters sd)"
  using assms by (auto simp: handleSaveOrUpdateComment_def storyChapters_def Let_def)

lemma save_add_single:
  assumes "storyData st = Some sd" and "trim commentText \<noteq> []"
    and "editMode st = SingleMode" and "selectedAnalysisItem st = Some sel"
  shows "storyChapters (handleSaveOrUpdateComment now uid commentText None st)
           = (case map_of (chapters sd) (ChapterNumber sel) of
                None \<Rightarrow> chapters sd
              | Some ss \<Rightarrow>
                  (case findIndex (\<lambda>s. id_s s = id_s sel) ss of
                     None \<Rightarrow> chapters sd
                   | Some i \<Rightarrow>
                       mapSet (ChapterNumber sel)
                         (ss[i := appendComment
                               \<lparr>id_c = generateUniqueId (uid 0), text_c = trim commentText,
                                type_c = Single, timestamp = now, groupId = None,
                                appliesToSentenceNumbers = None\<rparr> (ss ! i)])
                         (chapters sd)))"
  using assms
  by (simp add: handleSaveOrUpdateComment_def storyChapters_def Let_def split: option.splits)

lemma save_add_bulk:
  assumes "storyData st = Some sd" and "trim commentText \<noteq> []"
    and "editMode st = MassMode \<or> editMode st = GroupMode" and "bulkSelectedSentenceIds st \<noteq> []"
  shows "storyChapters (handleSaveOrUpdateComment now uid commentText None st)
           = bulkAdd (editMode st) (trim commentText) now
               (if editMode st = GroupMode then Some (generateUniqueId (uid 0)) else None)
               (if editMode st = GroupMode
                then Some (sentenceNumbersForGroup (chapters sd) (bulkSelectedSentenceIds st)) else None)
               uid (bulkSelectedSentenceIds st) (if editMode st = GroupMode then 1 else 0) (chapters sd)"
proof -
  from assms(3) have "editMode st \<noteq> SingleMode" by auto
  with assms show ?thesis
    by (simp add: handleSaveOrUpdateComment_def storyChapters_def Let_def)
qed

lemma save_add_nothing:
  assumes "storyData st = Some sd" and "trim commentText \<noteq> []"
    and "\<not> (editMode st = SingleMode \<and> selectedAnalysisItem st \<noteq> None)"
    and "\<not> ((editMode st = MassMode \<or> editMode st = GroupMode) \<and> bulkSelectedSentenceIds st \<noteq> [])"
  shows "storyChapters (handleSaveOrUpdateComment now uid commentText None st) = chapters sd"
  using assms
  by (cases "selectedAnalysisItem st"; cases "editMode st"; cases "bulkSelectedSentenceIds st")
     (simp_all add: handleSaveOrUpdateComment_def storyChapters_def Let_def)

text \<open>Claim C1, as stated: every mutator preserves group consistency from any consistent
  container. An edit that names an instance of a group comment without its group id
  rewrites that one instance only: the small story is consistent before and inconsistent
  after.\<close>

theorem edit_without_group_id_breaks_consistency:
  "groupConsistent (storyChapters exState)
   \<and> \<not> groupConsistent (storyChapters
         (handleSaveOrUpdateComment 200 (\<lambda>k. ''r'') ''cut entirely'' (Some (''c1'', None)) exState))"
  by (simp add: exDefs storyChapters_def groupConsistent_def allComments_def allSentences_def
      handleSaveOrUpdateComment_def trim_example editSingle_def hasCommentId_def editSingleItem_def
      retext_def)

text \<open>Claim C1, amended: from a consistent container, group consistency is preserved by
  every delete, by every add (single, mass, and group when the generated group id is not
  yet carried by a comment of the container), by every edit that supplies a group id, and
  by an edit without a group id when no comment with the edited id carries a group id.\<close>

theorem group_consistency_preserved:
  assumes "groupConsistent (storyChapters st)"
  shows "groupConsistent (storyChapters (handleDeleteComment itemId commentId st))
       \<and> ((detail = None \<and> editMode st = GroupMode
              \<longrightarrow> (\<forall>c \<in> set (allComments (storyChapters st)).
                     groupId c \<noteq> Some (generateUniqueId (uid 0))))
          \<and> (\<forall>editId g. detail = Some (editId, g) \<and> (g = None \<or> g = Some [])
              \<longrightarrow> (\<forall>c \<in> set (allComments (storyChapters st)). id_c c = editId \<longrightarrow> groupId c = None))
          \<longrightarrow> groupConsistent (storyChapters (handleSaveOrUpdateComment now uid commentText detail st)))"
proof (cases "storyData st")
  case None
  then show ?thesis
    using assms by (simp add: handleDeleteComment_def save_no_story)
next
  case (Some sd)
  then have m: "storyChapters st = chapters sd" by (simp add: storyChapters_def)
  with assms have gc: "groupConsistent (chapters sd)" by simp
  have del: "groupConsistent (storyChapters (handleDeleteComment itemId commentId st))"
    using storyChapters_delete [OF Some] groupConsistent_deleteFrom [OF gc]
    by (simp add: storyChapters_def)
  have save: "groupConsistent (storyChapters (handleSaveOrUpdateComment now uid commentText detail st))"
    if fresh: "detail = None \<and> editMode st = GroupMode
              \<longrightarrow> (\<forall>c \<in> set (allComments (chapters sd)). groupId c \<noteq> Some (generateUniqueId (uid 0)))"
      and ungrouped: "\<forall>editId g. detail = Some (editId, g) \<and> (g = None \<or> g = Some [])
              \<longrightarrow> (\<forall>c \<in> set (allComments (chapters sd)). id_c c = editId \<longrightarrow> groupId c = None)"
  proof (cases "trim commentText = []")
    case True
    with assms show ?thesis by (simp add: save_blank)
  next
    case False
    show ?thesis
    proof (cases detail)
      case None
      show ?thesis
      proof (cases "editMode st = SingleMode \<and> selectedAnalysisItem st \<noteq> None")
        case True
        then obtain sel where sel: "selectedAnalysisItem st = Some sel" and sm: "editMode st = SingleMode"
          by auto
        note eq = save_add_single [OF Some False sm sel, of now uid]
        show ?thesis
        proof (cases "map_of (chapters sd) (ChapterNumber sel)")
          case None
          with eq gc show ?thesis unfolding \<open>detail = None\<close> by simp
        next
          case ss: (Some ss)
          show ?thesis
          proof (cases "findIndex (\<lambda>s. id_s s = id_s sel) ss")
            case None
            with eq ss gc show ?thesis unfolding \<open>detail = None\<close> by simp
          next
            case i: (Some i)
            from findIndex_Some_D [OF i] have "i < length ss" by simp
            from groupConsistent_addSingle [OF gc ss this, of
                "\<lparr>id_c = generateUniqueId (uid 0), text_c = trim commentText,
                  type_c = Single, timestamp = now, groupId = None,
                  appliesToSentenceNumbers = None\<rparr>"]
            show ?thesis using eq ss i unfolding \<open>detail = None\<close> by simp
          qed
        qed
      next
        case notSingle: False
        show ?thesis
        proof (cases "(editMode st = MassMode \<or> editMode st = GroupMode) \<and> bulkSelectedSentenceIds st \<noteq> []")
          case True
          then have b1: "editMode st = MassMode \<or> editMode st = GroupMode"
            and b2: "bulkSelectedSentenceIds st \<noteq> []" by auto
          have f: "editMode st = GroupMode \<longrightarrow>
                  (\<forall>c \<in> set (allComments (chapters sd)).
                     groupId c \<noteq> (if editMode st = GroupMode then Some (generateUniqueId (uid 0)) else None))"
            using fresh \<open>detail = None\<close> by simp
          show ?thesis
            unfolding \<open>detail = None\<close> save_add_bulk [OF Some False b1 b2]
            by (rule groupConsistent_bulkAdd [OF gc f])
        next
          case False
          show ?thesis
            unfolding \<open>detail = None\<close> save_add_nothing [OF Some \<open>trim commentText \<noteq> []\<close> notSingle False]
            by (rule gc)
        qed
      qed
    next
      case (Some d)
      obtain editId g where d: "d = (editId, g)" by (cases d)
      show ?thesis
      proof (cases "g = None \<or> g = Some []")
        case True
        with ungrouped Some d
        have "\<forall>c \<in> set (allComments (chapters sd)). id_c c = editId \<longrightarrow> groupId c = None"
          by blast
        from groupConsistent_editSingle [OF gc this]
        show ?thesis
          unfolding Some d save_edit_single [OF \<open>storyData st = Some sd\<close> False True] .
      next
        case False
        then obtain g' where g': "g = Some g'" "g' \<noteq> []" by (cases g) auto
        show ?thesis
          unfolding Some d g' save_edit_group [OF \<open>storyData st = Some sd\<close> \<open>trim commentText \<noteq> []\<close> g'(2)]
          by (rule groupConsistent_editGroup [OF gc])
      qed
    qed
  qed
  from del save show ?thesis unfolding m by blast
qed

theorem group_consistency_preserved_witness:
  "groupConsistent (storyChapters exState)
   \<and> groupConsistent (storyChapters (handleDeleteComment ''ch1-s1'' ''c1'' exState))
   \<and> groupConsistent (storyChapters
        (handleSaveOrUpdateComment 200 (\<lambda>k. ''r'') ''cut entirely'' (Some (''c1'', Some ''g1'')) exState))
   \<and> list_all (\<lambda>c. id_c c \<noteq> ''c2'' \<or> groupId c = None) (allComments (storyChapters exState))
   \<and> groupConsistent (storyChapters
        (handleSaveOrUpdateComment 200 (\<lambda>k. ''r'') ''cut entirely'' (Some (''c2'', None)) exState))
   \<and> groupConsistent (storyChapters exGroupState)
   \<and> editMode exGroupState = GroupMode
   \<and> list_all (\<lambda>c. groupId c \<noteq> Some (generateUniqueId ''r'')) (allComments (storyChapters exGroupState))
   \<and> groupConsistent (storyChapters
        (handleSaveOrUpdateComment 200 (\<lambda>k. ''r'') ''cut entirely'' None exGroupState))"
proof -
  have h: "groupConsistent (storyChapters exState)"
    by (simp add: exDefs storyChapters_def groupConsistent_def allComments_def allSentences_def)
  have hg: "groupConsistent (storyChapters exGroupState)"
    by (simp add: exDefs storyChapters_def groupConsistent_def allComments_def allSentences_def)
  have u: "\<forall>c \<in> set (allComments (storyChapters exState)). id_c c = ''c2'' \<longrightarrow> groupId c = None"
    by (simp add: exDefs storyChapters_def allComments_def allSentences_def)
  have f: "\<forall>c \<in> set (allComments (storyChapters exGroupState)). groupId c \<noteq> Some (generateUniqueId ''r'')"
    by (simp add: exDefs storyChapters_def allComments_def allSentences_def generateUniqueId_def)
  have mode: "editMode exGroupState = GroupMode" by (simp add: exDefs)
  from group_consistency_preserved [OF h, of "''ch1-s1''" "''c1''"]
  have w1: "groupConsistent (storyChapters (handleDeleteComment ''ch1-s1'' ''c1'' exState))"
    by (rule conjunct1)
  from group_consistency_preserved [OF h, of _ _ "Some (''c1'', Some ''g1'')" "\<lambda>k. ''r''" 200 "''cut entirely''"]
  have w2: "groupConsistent (storyChapters
        (handleSaveOrUpdateComment 200 (\<lambda>k. ''r'') ''cut entirely'' (Some (''c1'', Some ''g1'')) exState))"
    by simp
  from group_consistency_preserved [OF h, of _ _ "Some (''c2'', None)" "\<lambda>k. ''r''" 200 "''cut entirely''"] u
  have w3: "groupConsistent (storyChapters
        (handleSaveOrUpdateComment 200 (\<lambda>k. ''r'') ''cut entirely'' (Some (''c2'', None)) exState))"
    by simp
  from group_consistency_preserved [OF hg, of _ _ None "\<lambda>k. ''r''" 200 "''cut entirely''"] f
  have w4: "groupConsistent (storyChapters
        (handleSaveOrUpdateComment 200 (\<lambda>k. ''r'') ''cut entirely'' None exGroupState))"
    by simp
  from u have u': "list_all (\<lambda>c. id_c c \<noteq> ''c2'' \<or> groupId c = None) (allComments (storyChapters exState))"
    by (auto simp: list_all_iff)
  from f have f': "list_all (\<lambda>c. groupId c \<noteq> Some (generateUniqueId ''r'')) (allComments (storyChapters exGroupState))"
    by (simp add: list_all_iff)
  from h hg u' f' mode w1 w2 w3 w4 show ?thesis by blast
qed

section \<open>Adding a group comment\<close>

text \<open>Claim C2 says that the sentence-number list shared by the new group comments equals
  the sentence numbers of the targets, sorted ascending. The code collects the numbers with
  \<open>-1\<close> standing for "sentence not found" and then filters \<open>-1\<close> out, so a target
  sentence that is itself numbered \<open>-1\<close> is dropped from the list: with the two sentences
  numbered \<open>-1\<close> and \<open>1\<close> both selected, both new comments carry the list \<open>[1]\<close>.\<close>

theorem group_add_drops_sentence_number_minus_one:
  "map SentenceNumber (allSentences (storyChapters exNegState)) = [- 1, 1]
   \<and> map id_s (allSentences (storyChapters exNegState)) = bulkSelectedSentenceIds exNegState
   \<and> map appliesToSentenceNumbers
        (allComments (storyChapters
           (handleSaveOrUpdateComment 200 exUid ''tighten pacing'' None exNegState)))
      = [Some [1], Some [1]]"
  by (simp add: exNegState_def exSentence_def storyChapters_def allSentences_def allComments_def
      handleSaveOrUpdateComment_def trim_def isWhiteSpace_def Let_def sentenceNumbersForGroup_def
      sentenceNumberOf_def appendComment_def bulkComment_def)

lemma findIndex_map: "findIndex (\<lambda>s. f s = y) xs = findIndex (\<lambda>i. i = y) (map f xs)"
  by (induction xs) auto

lemma findIndex_exists:
  "list_ex p xs \<Longrightarrow> \<exists>i. findIndex p xs = Some i"
  by (cases "findIndex p xs") (auto simp: findIndex_None_iff list_ex_iff)

lemma ids_append_step:
  "map id_s (allSentences (updateFirstMatch p (appendComment c) m)) = map id_s (allSentences m)"
proof (cases "findIndex p (allSentences m)")
  case None
  then show ?thesis by (simp add: allSentences_updateFirstMatch)
next
  case (Some i)
  from findIndex_Some_D [OF Some] have "i < length (allSentences m)" by simp
  then show ?thesis
    using Some by (simp add: allSentences_updateFirstMatch map_update appendComment_def list_update_same_conv)
qed

lemma bulkAdd_ids:
  "map id_s (allSentences (bulkAdd mode t now g numbers uid ids n m)) = map id_s (allSentences m)"
  by (induction ids arbitrary: n m) (simp_all add: ids_append_step)

lemma bulkAdd_sentences:
  assumes "distinct ids"
    and "\<forall>x \<in> set ids. list_ex (\<lambda>s. id_s s = x) (allSentences m)"
  shows "(\<forall>k < length ids. \<exists>p. findIndex (\<lambda>s. id_s s = ids ! k) (allSentences m) = Some p
             \<and> allSentences (bulkAdd mode t now g numbers uid ids n m) ! p
                 = appendComment (bulkComment mode t now g numbers (generateUniqueId (uid (n + k))))
                     (allSentences m ! p))
       \<and> (\<forall>p < length (allSentences m).
             (\<forall>x \<in> set ids. findIndex (\<lambda>s. id_s s = x) (allSentences m) \<noteq> Some p)
             \<longrightarrow> allSentences (bulkAdd mode t now g numbers uid ids n m) ! p = allSentences m ! p)"
  using assms
proof (induction ids arbitrary: n m)
  case Nil
  then show ?case by simp
next
  case (Cons x ids)
  let ?xs = "allSentences m"
  let ?c = "bulkComment mode t now g numbers (generateUniqueId (uid n))"
  let ?m1 = "updateFirstMatch (\<lambda>s. id_s s = x) (appendComment ?c) m"
  let ?r = "bulkAdd mode t now g numbers uid ids (Suc n) ?m1"
  from Cons.prems have ex: "list_ex (\<lambda>s. id_s s = x) ?xs" by simp
  then obtain px where px: "findIndex (\<lambda>s. id_s s = x) ?xs = Some px"
    using findIndex_exists by blast
  from findIndex_Some_D [OF px] have pxl: "px < length ?xs" and pxid: "id_s (?xs ! px) = x" by auto
  have xs1: "allSentences ?m1 = ?xs[px := appendComment ?c (?xs ! px)]"
    using px by (simp add: allSentences_updateFirstMatch)
  have ids1: "map id_s (allSentences ?m1) = map id_s ?xs" by (rule ids_append_step)
  have pos: "findIndex (\<lambda>s. id_s s = y) (allSentences ?m1) = findIndex (\<lambda>s. id_s s = y) ?xs" for y
    using findIndex_map [of id_s y "allSentences ?m1"] findIndex_map [of id_s y ?xs] ids1 by simp
  have res: "bulkAdd mode t now g numbers uid (x # ids) n m = ?r" using ex by simp
  have ex1: "\<forall>y \<in> set ids. list_ex (\<lambda>s. id_s s = y) (allSentences ?m1)"
  proof
    fix y assume "y \<in> set ids"
    with Cons.prems have "list_ex (\<lambda>s. id_s s = y) ?xs" by simp
    then have "y \<in> set (map id_s ?xs)" by (auto simp: list_ex_iff)
    with ids1 have "y \<in> set (map id_s (allSentences ?m1))" by simp
    then show "list_ex (\<lambda>s. id_s s = y) (allSentences ?m1)" by (auto simp: list_ex_iff)
  qed
  from Cons.prems have d: "distinct ids" "x \<notin> set ids" by simp_all
  note IH = Cons.IH [OF d(1) ex1, of "Suc n", unfolded pos]
  have other: "findIndex (\<lambda>s. id_s s = y) ?xs \<noteq> Some px" if "y \<in> set ids" for y
  proof
    assume "findIndex (\<lambda>s. id_s s = y) ?xs = Some px"
    from findIndex_Some_D [OF this] pxid have "y = x" by simp
    with that d(2) show False by simp
  qed
  have len1: "length (allSentences ?m1) = length ?xs" using xs1 by simp
  have at_px: "allSentences ?r ! px = appendComment ?c (?xs ! px)"
  proof -
    from IH pxl len1 other have "allSentences ?r ! px = allSentences ?m1 ! px" by auto
    with xs1 pxl show ?thesis by simp
  qed
  show ?case
  proof (intro conjI allI impI)
    fix k assume k: "k < length (x # ids)"
    show "\<exists>p. findIndex (\<lambda>s. id_s s = (x # ids) ! k) ?xs = Some p
             \<and> allSentences (bulkAdd mode t now g numbers uid (x # ids) n m) ! p
                 = appendComment (bulkComment mode t now g numbers (generateUniqueId (uid (n + k))))
                     (?xs ! p)"
    proof (cases k)
      case 0
      with px at_px res show ?thesis by simp
    next
      case (Suc k')
      with k have k': "k' < length ids" by simp
      with IH obtain p where p: "findIndex (\<lambda>s. id_s s = ids ! k') ?xs = Some p"
        "allSentences ?r ! p
           = appendComment (bulkComment mode t now g numbers (generateUniqueId (uid (Suc n + k'))))
               (allSentences ?m1 ! p)" by blast
      from k' have "ids ! k' \<in> set ids" by simp
      from other [OF this] p(1) have "p \<noteq> px" by auto
      with xs1 have "allSentences ?m1 ! p = ?xs ! p" by simp
      with p Suc res show ?thesis by simp
    qed
  next
    fix p assume p: "p < length ?xs"
      and np: "\<forall>y \<in> set (x # ids). findIndex (\<lambda>s. id_s s = y) ?xs \<noteq> Some p"
    from np px have "p \<noteq> px" by auto
    from np have "\<forall>y \<in> set ids. findIndex (\<lambda>s. id_s s = y) ?xs \<noteq> Some p" by simp
    with IH p len1 have "allSentences ?r ! p = allSentences ?m1 ! p" by auto
    also have "\<dots> = ?xs ! p" using xs1 \<open>p \<noteq> px\<close> by simp
    finally show "allSentences (bulkAdd mode t now g numbers uid (x # ids) n m) ! p = ?xs ! p"
      using res by simp
  qed
qed

lemma bulkAdd_keys:
  "map fst (bulkAdd mode t now g numbers uid ids n m) = map fst m"
  by (induction ids arbitrary: n m) (simp_all add: updateFirstMatch_keys)

lemma bulkAdd_lengths:
  "map (\<lambda>e. length (snd e)) (bulkAdd mode t now g numbers uid ids n m) = map (\<lambda>e. length (snd e)) m"
  by (induction ids arbitrary: n m) (simp_all add: updateFirstMatch_lengths)

lemma length_allComments_append:
  assumes "list_ex p (allSentences m)"
  shows "length (allComments (updateFirstMatch p (appendComment c) m)) = Suc (length (allComments m))"
proof -
  from assms obtain i where i: "findIndex p (allSentences m) = Some i"
    using findIndex_exists by blast
  from findIndex_Some_D [OF i] have l: "i < length (allSentences m)" by simp
  let ?ls = "map (\<lambda>s. length (comments s)) (allSentences m)"
  have "length (allComments (updateFirstMatch p (appendComment c) m))
          = sum_list (?ls[i := Suc (?ls ! i)])"
    using i l by (simp add: allComments_def allSentences_updateFirstMatch length_concat comp_def
        map_update appendComment_def)
  also have "\<dots> = sum_list ?ls + Suc (?ls ! i) - ?ls ! i"
    using l by (simp add: sum_list_update)
  also have "\<dots> = Suc (length (allComments m))"
    by (simp add: allComments_def length_concat comp_def)
  finally show ?thesis .
qed

lemma bulkAdd_count:
  assumes "\<forall>x \<in> set ids. list_ex (\<lambda>s. id_s s = x) (allSentences m)"
  shows "length (allComments (bulkAdd mode t now g numbers uid ids n m))
           = length (allComments m) + length ids"
  using assms
proof (induction ids arbitrary: n m)
  case Nil
  then show ?case by simp
next
  case (Cons x ids)
  let ?m1 = "updateFirstMatch (\<lambda>s. id_s s = x)
               (appendComment (bulkComment mode t now g numbers (generateUniqueId (uid n)))) m"
  have "\<forall>y \<in> set ids. list_ex (\<lambda>s. id_s s = y) (allSentences ?m1)"
  proof
    fix y assume "y \<in> set ids"
    with Cons.prems have "y \<in> set (map id_s (allSentences m))" by (auto simp: list_ex_iff)
    then have "y \<in> set (map id_s (allSentences ?m1))" by (simp only: ids_append_step)
    then show "list_ex (\<lambda>s. id_s s = y) (allSentences ?m1)" by (auto simp: list_ex_iff)
  qed
  from Cons.IH [OF this, of "Suc n"] Cons.prems show ?case
    by (simp add: length_allComments_append)
qed

lemma sentenceNumbersForGroup_all:
  "\<forall>x \<in> set ids. sentenceNumberOf m x \<noteq> - 1 \<Longrightarrow>
     sentenceNumbersForGroup m ids = sort (map (sentenceNumberOf m) ids)"
  by (simp add: sentenceNumbersForGroup_def filter_id_conv)

text \<open>When no selected sentence is numbered \<open>-1\<close>, the group add does what claim C2 says:
  for a selection of distinct ids of existing sentences, each selected sentence (the first
  one with that id) gets one new comment appended, of kind group, with the text, the time
  and the group id generated by this call, and with the sorted sentence numbers of the
  selection; every other sentence is left as it was, and the container holds as many new
  comments as there are selected ids.\<close>

lemma group_add_postcondition:
  assumes "storyData st = Some sd" and "trim commentText \<noteq> []" and "editMode st = GroupMode"
    and "bulkSelectedSentenceIds st \<noteq> []" and "distinct (bulkSelectedSentenceIds st)"
    and "\<forall>x \<in> set (bulkSelectedSentenceIds st). list_ex (\<lambda>s. id_s s = x) (allSentences (chapters sd))"
    and "\<forall>x \<in> set (bulkSelectedSentenceIds st). sentenceNumberOf (chapters sd) x \<noteq> - 1"
  shows "\<exists>m'. storyData (handleSaveOrUpdateComment now uid commentText None st) = Some (sd\<lparr>chapters := m'\<rparr>)
     \<and> map fst m' = map fst (chapters sd)
     \<and> map (\<lambda>e. length (snd e)) m' = map (\<lambda>e. length (snd e)) (chapters sd)
     \<and> (\<forall>k < length (bulkSelectedSentenceIds st).
           \<exists>p. findIndex (\<lambda>s. id_s s = bulkSelectedSentenceIds st ! k) (allSentences (chapters sd)) = Some p
             \<and> allSentences m' ! p
                = (allSentences (chapters sd) ! p)\<lparr>comments :=
                     comments (allSentences (chapters sd) ! p)
                     @ [\<lparr>id_c = generateUniqueId (uid (Suc k)), text_c = trim commentText,
                         type_c = Group, timestamp = now,
                         groupId = Some (generateUniqueId (uid 0)),
                         appliesToSentenceNumbers =
                           Some (sort (map (sentenceNumberOf (chapters sd)) (bulkSelectedSentenceIds st)))\<rparr>]\<rparr>)
     \<and> (\<forall>p < length (allSentences (chapters sd)).
           (\<forall>x \<in> set (bulkSelectedSentenceIds st).
              findIndex (\<lambda>s. id_s s = x) (allSentences (chapters sd)) \<noteq> Some p)
           \<longrightarrow> allSentences m' ! p = allSentences (chapters sd) ! p)
     \<and> length (allComments m') = length (allComments (chapters sd)) + length (bulkSelectedSentenceIds st)"
proof -
  let ?ids = "bulkSelectedSentenceIds st"
  let ?m = "chapters sd"
  let ?g = "Some (generateUniqueId (uid 0))"
  let ?ns = "Some (sort (map (sentenceNumberOf ?m) ?ids))"
  let ?m' = "bulkAdd GroupMode (trim commentText) now ?g ?ns uid ?ids 1 ?m"
  have "storyData (handleSaveOrUpdateComment now uid commentText None st) = Some (sd\<lparr>chapters := ?m'\<rparr>)"
    using assms(1-4) sentenceNumbersForGroup_all [OF assms(7)]
    by (simp add: handleSaveOrUpdateComment_def Let_def)
  moreover have "map fst ?m' = map fst ?m" by (rule bulkAdd_keys)
  moreover have "map (\<lambda>e. length (snd e)) ?m' = map (\<lambda>e. length (snd e)) ?m" by (rule bulkAdd_lengths)
  moreover from bulkAdd_sentences [OF assms(5,6), of GroupMode "trim commentText" now ?g ?ns uid 1]
  have "(\<forall>k < length ?ids.
           \<exists>p. findIndex (\<lambda>s. id_s s = ?ids ! k) (allSentences ?m) = Some p
             \<and> allSentences ?m' ! p
                = (allSentences ?m ! p)\<lparr>comments :=
                     comments (allSentences ?m ! p)
                     @ [\<lparr>id_c = generateUniqueId (uid (Suc k)), text_c = trim commentText,
                         type_c = Group, timestamp = now, groupId = ?g,
                         appliesToSentenceNumbers = ?ns\<rparr>]\<rparr>)"
    and "(\<forall>p < length (allSentences ?m).
           (\<forall>x \<in> set ?ids. findIndex (\<lambda>s. id_s s = x) (allSentences ?m) \<noteq> Some p)
           \<longrightarrow> allSentences ?m' ! p = allSentences ?m ! p)"
    by (simp_all add: appendComment_def bulkComment_def)
  moreover have "length (allComments ?m') = length (allComments ?m) + length ?ids"
    by (rule bulkAdd_count [OF assms(6)])
  ultimately show ?thesis by blast
qed

section \<open>Simple export\<close>

lemma latestComment_Nil: "latestComment [] = None"
  by (simp add: latestComment_def)

lemma hd_insort_key:
  "hd (insort_key f x xs) = (if xs = [] \<or> f x \<le> f (hd xs) then x else hd xs)"
  by (cases xs) auto


lemma latestComment_Cons:
  "latestComment (c # cs) =
     (case latestComment cs of
        None \<Rightarrow> Some c
      | Some l \<Rightarrow> if timestamp l \<le> timestamp c then Some c else Some l)"
proof (cases "sort_key (\<lambda>c. - timestamp c) cs")
  case Nil
  then show ?thesis by (simp add: latestComment_def)
next
  case (Cons l ls)
  then show ?thesis by (simp add: latestComment_def)
qed

lemma latestComment_first_max:
  "cs \<noteq> [] \<Longrightarrow>
     \<exists>i < length cs. latestComment cs = Some (cs ! i)
        \<and> (\<forall>c \<in> set cs. timestamp c \<le> timestamp (cs ! i))
        \<and> (\<forall>j < i. timestamp (cs ! j) < timestamp (cs ! i))"
proof (induction cs)
  case Nil
  then show ?case by simp
next
  case (Cons c cs)
  show ?case
  proof (cases "cs = []")
    case True
    then show ?thesis by (simp add: latestComment_Cons latestComment_Nil)
  next
    case False
    from Cons.IH [OF False] obtain i where i: "i < length cs"
      "latestComment cs = Some (cs ! i)"
      "\<forall>c \<in> set cs. timestamp c \<le> timestamp (cs ! i)"
      "\<forall>j < i. timestamp (cs ! j) < timestamp (cs ! i)" by blast
    show ?thesis
    proof (cases "timestamp (cs ! i) \<le> timestamp c")
      case True
      with i have "latestComment (c # cs) = Some ((c # cs) ! 0)
        \<and> (\<forall>x \<in> set (c # cs). timestamp x \<le> timestamp ((c # cs) ! 0))
        \<and> (\<forall>j < 0. timestamp ((c # cs) ! j) < timestamp ((c # cs) ! 0))"
        by (auto simp: latestComment_Cons)
      then show ?thesis by blast
    next
      case False
      with i have "latestComment (c # cs) = Some ((c # cs) ! Suc i)
        \<and> (\<forall>x \<in> set (c # cs). timestamp x \<le> timestamp ((c # cs) ! Suc i))
        \<and> (\<forall>j < Suc i. timestamp ((c # cs) ! j) < timestamp ((c # cs) ! Suc i))"
        by (auto simp: latestComment_Cons less_Suc_eq_0_disj)
      with i(1) show ?thesis by (intro exI [of _ "Suc i"]) simp
    qed
  qed
qed

lemma natDigits_nonempty: "natDigits n \<noteq> []"
  by (subst natDigits.simps) simp

lemma stringOfInt_nonempty: "stringOfInt i \<noteq> []"
  by (simp add: stringOfInt_def natDigits_nonempty)

lemma joinWith_Nil_iff: "joinWith sep (map stringOfInt ns) = [] \<longleftrightarrow> ns = []"
proof (cases ns)
  case Nil
  then show ?thesis by simp
next
  case (Cons n ns')
  then show ?thesis by (cases ns') (simp_all add: stringOfInt_nonempty)
qed

lemma simple_export_document:
  assumes "storyData st = Some sd" and "originalCompleteStory st = Some original" and "truthy original"
  shows "snd (handleSimpleExport st)
           = Some (JArr (map simpleExportItem (sort_key SentenceNumber (allSentences (chapters sd)))))"
  using assms
  by (simp add: handleSimpleExport_def commonExportLogic_def exportData_def analysisExport_def)

text \<open>Claim C8, as stated: a sentence with a comment always gets the legacy comment field,
  and gets the applies-to field exactly when its latest comment is of kind group. Both
  fields are only written when their text is not empty: the first sentence below has a
  latest comment of kind group and gets no applies-to field, the second has a comment and
  gets no comment field.\<close>

theorem simple_export_without_applies_field:
  "map (\<lambda>s. map (\<lambda>c. (type_c c, text_c c, appliesToSentenceNumbers c)) (comments s))
       (allSentences (storyChapters exLegacyState))
     = [[(Group, ''slow'', Some [])], [(Single, [], None)]]
   \<and> snd (handleSimpleExport exLegacyState)
     = Some (JArr [JObj [(''Sentence'', JStr ''Once upon a time.''), (''Sentence Number'', JNum 1),
                         (''comment'', JStr ''slow'')],
                   JObj [(''Sentence'', JStr ''Once upon a time.''), (''Sentence Number'', JNum 2)]])"
  by (simp add: exLegacyState_def exSentence_def storyChapters_def allSentences_def
      handleSimpleExport_def commonExportLogic_def exportData_def analysisExport_def
      simpleExportItem_def legacyFields_def commentTextOf_def commentAppliesToOf_def latestComment_def)

text \<open>Claim C8, amended: the simple export lists the sentences by sentence number. A
  sentence without comments gets neither legacy field. For a sentence with comments, let
  the latest comment be the first one, in list order, among those with the greatest
  timestamp; the comment field is written, with the text of the latest comment, exactly
  when that text is not empty, and the applies-to field is written, with the sentence
  numbers joined by commas, exactly when the latest comment is of kind group and carries a
  list of sentence numbers that is not empty.\<close>

theorem simple_export_latest_comment:
  assumes "storyData st = Some sd" and "originalCompleteStory st = Some original" and "truthy original"
  shows "snd (handleSimpleExport st)
           = Some (JArr (map simpleExportItem (sort_key SentenceNumber (allSentences (chapters sd)))))
       \<and> (comments item = [] \<longrightarrow>
            simpleExportItem item
              = JObj [(''Sentence'', JStr (Sentence item)), (''Sentence Number'', JNum (SentenceNumber item))])
       \<and> (comments item \<noteq> [] \<longrightarrow>
            (\<exists>i < length (comments item).
               (\<forall>c \<in> set (comments item). timestamp c \<le> timestamp (comments item ! i))
               \<and> (\<forall>j < i. timestamp (comments item ! j) < timestamp (comments item ! i))
               \<and> simpleExportItem item
                   = JObj ([(''Sentence'', JStr (Sentence item)),
                            (''Sentence Number'', JNum (SentenceNumber item))]
                           @ (if text_c (comments item ! i) = [] then []
                              else [(''comment'', JStr (text_c (comments item ! i)))])
                           @ (case appliesToSentenceNumbers (comments item ! i) of
                                None \<Rightarrow> []
                              | Some ns \<Rightarrow>
                                  if type_c (comments item ! i) = Group \<and> ns \<noteq> []
                                  then [(''comment applies to sentences'',
                                         JStr (joinWith '','' (map stringOfInt ns)))]
                                  else []))))"
proof (intro conjI impI)
  show "snd (handleSimpleExport st)
           = Some (JArr (map simpleExportItem (sort_key SentenceNumber (allSentences (chapters sd)))))"
    by (rule simple_export_document [OF assms])
next
  assume "comments item = []"
  then show "simpleExportItem item
              = JObj [(''Sentence'', JStr (Sentence item)), (''Sentence Number'', JNum (SentenceNumber item))]"
    by (simp add: simpleExportItem_def legacyFields_def commentTextOf_def commentAppliesToOf_def
        latestComment_Nil)
next
  assume "comments item \<noteq> []"
  from latestComment_first_max [OF this] obtain i where i: "i < length (comments item)"
    and l: "latestComment (comments item) = Some (comments item ! i)"
    and mx: "\<forall>c \<in> set (comments item). timestamp c \<le> timestamp (comments item ! i)"
    and fst: "\<forall>j < i. timestamp (comments item ! j) < timestamp (comments item ! i)"
    by blast
  have "simpleExportItem item
          = JObj ([(''Sentence'', JStr (Sentence item)),
                   (''Sentence Number'', JNum (SentenceNumber item))]
                  @ (if text_c (comments item ! i) = [] then []
                     else [(''comment'', JStr (text_c (comments item ! i)))])
                  @ (case appliesToSentenceNumbers (comments item ! i) of
                       None \<Rightarrow> []
                     | Some ns \<Rightarrow>
                         if type_c (comments item ! i) = Group \<and> ns \<noteq> []
                         then [(''comment applies to sentences'',
                                JStr (joinWith '','' (map stringOfInt ns)))]
                         else []))"
    using l
    by (auto simp: simpleExportItem_def legacyFields_def commentTextOf_def commentAppliesToOf_def
        joinWith_Nil_iff split: option.splits)
  with i mx fst show "\<exists>i < length (comments item).
               (\<forall>c \<in> set (comments item). timestamp c \<le> timestamp (comments item ! i))
               \<and> (\<forall>j < i. timestamp (comments item ! j) < timestamp (comments item ! i))
               \<and> simpleExportItem item
                   = JObj ([(''Sentence'', JStr (Sentence item)),
                            (''Sentence Number'', JNum (SentenceNumber item))]
                           @ (if text_c (comments item ! i) = [] then []
                              else [(''comment'', JStr (text_c (comments item ! i)))])
                           @ (case appliesToSentenceNumbers (comments item ! i) of
                                None \<Rightarrow> []
                              | Some ns \<Rightarrow>
                                  if type_c (comments item ! i) = Group \<and> ns \<noteq> []
                                  then [(''comment applies to sentences'',
                                         JStr (joinWith '','' (map stringOfInt ns)))]
                                  else []))"
    by blast
qed

theorem simple_export_latest_comment_witness:
  "storyData exState = Some exStory
   \<and> originalCompleteStory exState = Some (JObj [(''Title'', JStr ''Tale'')])
   \<and> truthy (JObj [(''Title'', JStr ''Tale'')])
   \<and> snd (handleSimpleExport exState)
       = Some (JArr (map simpleExportItem (sort_key SentenceNumber (allSentences (chapters exStory)))))
   \<and> comments (exSentence 4 ''ch1-s4'' []) = []
   \<and> simpleExportItem (exSentence 4 ''ch1-s4'' [])
       = JObj [(''Sentence'', JStr ''Once upon a time.''), (''Sentence Number'', JNum 4)]
   \<and> comments exTwoComments = [exC2, exC3]
   \<and> timestamp exC2 < timestamp exC3
   \<and> simpleExportItem exTwoComments
       = JObj [(''Sentence'', JStr ''Once upon a time.''), (''Sentence Number'', JNum 3),
               (''comment'', JStr ''tighten pacing''),
               (''comment applies to sentences'', JStr ''1,3'')]"
proof -
  have h1: "storyData exState = Some exStory" by (simp add: exState_def)
  have h2: "originalCompleteStory exState = Some (JObj [(''Title'', JStr ''Tale'')])"
    by (simp add: exState_def)
  have h3: "truthy (JObj [(''Title'', JStr ''Tale'')])" by simp
  have e: "comments (exSentence 4 ''ch1-s4'' []) = []" by (simp add: exSentence_def)
  have t: "comments exTwoComments = [exC2, exC3]" "timestamp exC2 < timestamp exC3"
    by (simp_all add: exTwoComments_def exSentence_def exC2_def exC3_def)
  note T = simple_export_latest_comment [OF h1 h2 h3]
  from T [of "exSentence 4 ''ch1-s4'' []"] e
  have w1: "simpleExportItem (exSentence 4 ''ch1-s4'' [])
       = JObj [(''Sentence'', JStr ''Once upon a time.''), (''Sentence Number'', JNum 4)]"
    by (simp add: exSentence_def)
  from T [of exTwoComments] t(1)
  obtain i where i: "i < length (comments exTwoComments)"
    and mx: "\<forall>c \<in> set (comments exTwoComments). timestamp c \<le> timestamp (comments exTwoComments ! i)"
    and ex: "simpleExportItem exTwoComments
                   = JObj ([(''Sentence'', JStr (Sentence exTwoComments)),
                            (''Sentence Number'', JNum (SentenceNumber exTwoComments))]
                           @ (if text_c (comments exTwoComments ! i) = [] then []
                              else [(''comment'', JStr (text_c (comments exTwoComments ! i)))])
                           @ (case appliesToSentenceNumbers (comments exTwoComments ! i) of
                                None \<Rightarrow> []
                              | Some ns \<Rightarrow>
                                  if type_c (comments exTwoComments ! i) = Group \<and> ns \<noteq> []
                                  then [(''comment applies to sentences'',
                                         JStr (joinWith '','' (map stringOfInt ns)))]
                                  else []))"
    by auto
  from i t(1) have "i = 0 \<or> i = 1" by auto
  moreover have "i \<noteq> 0"
  proof
    assume "i = 0"
    with mx t show False by (simp add: exC2_def exC3_def)
  qed
  ultimately have "i = 1" by simp
  with ex t(1) have w2: "simpleExportItem exTwoComments
       = JObj [(''Sentence'', JStr ''Once upon a time.''), (''Sentence Number'', JNum 3),
               (''comment'', JStr ''tighten pacing''),
               (''comment applies to sentences'', JStr ''1,3'')]"
    by (simp add: exTwoComments_def exSentence_def exC3_def stringOfInt_def)
  from h1 h2 h3 e t w1 w2 T [of exTwoComments] show ?thesis by simp
qed

section \<open>Import: validation and failure\<close>

lemma importItem_invalid:
  assumes "asNumber (ownProp x ''Chapter Number'') = None
           \<or> asNumber (ownProp x ''Sentence Number'') = None
           \<or> ownProp x ''Sentence'' = None \<or> ownProp x ''Sentence'' = Some (JStr [])"
  shows "\<exists>e. importItem clock uid n x = Inl e"
  using assms
  by (auto simp: importItem_def Let_def truthyOpt_def split: option.splits)

lemma loadItems_invalid:
  assumes "x \<in> set xs"
    and "\<And>n. \<exists>e. importItem clock uid n x = Inl e"
  shows "\<exists>e. loadItems clock uid n xs m = Inl e"
  using assms(1)
proof (induction xs arbitrary: n m)
  case Nil
  then show ?case by simp
next
  case (Cons y ys)
  show ?case
  proof (cases "importItem clock uid n y")
    case (Inl e)
    then show ?thesis by simp
  next
    case (Inr r)
    obtain item n1 where r: "r = (item, n1)" by (cases r)
    from Inr assms(2) [of n] have "y \<noteq> x" by auto
    with Cons.prems have "x \<in> set ys" by simp
    from Cons.IH [OF this] Inr r show ?thesis by simp
  qed
qed

lemma handleProcessingError_clears:
  "storyData (handleProcessingError e st) = None
   \<and> originalCompleteStory (handleProcessingError e st) = None
   \<and> error (handleProcessingError e st) = Some e"
  by (simp add: handleProcessingError_def)

lemma handleFileLoad_failure:
  assumes "buildStory clock uid data = Inl e"
  shows "\<exists>st'. handleFileLoad clock uid data st = Some st' \<and> error st' = Some (ErrorProcessingStoryData e)
           \<and> storyData st' = None \<and> originalCompleteStory st' = None"
  using assms by (simp add: handleFileLoad_def)

lemma basicValidation_None_D:
  assumes "basicValidation D = None"
  shows "\<exists>xs cs. ownProp D ''Analysis'' = Some (JArr xs)
           \<and> getProp D ''Analysis'' = Inr (Some (JArr xs))
           \<and> ownProp D ''The Complete Story'' = Some cs \<and> truthy cs
           \<and> truthyOpt (ownProp cs ''Title'')"
proof (cases D)
  case (JObj kvs)
  with assms show ?thesis
    by (auto simp: basicValidation_def ownProp_def truthyOpt_def
        split: if_splits option.splits json.splits)
qed (use assms in \<open>simp_all add: basicValidation_def truthyOpt_def\<close>)

text \<open>Claim C6: the import fails with an error, and installs no story, whenever the
  \<^verbatim>\<open>Analysis\<close> array is missing or not a list, the title is missing, or some entry has a
  chapter number that is not a number, a sentence number that is not a number, or a sentence
  text that is missing or empty. In particular an entry whose chapter number is a string
  makes the whole import fail.\<close>

theorem import_validation:
  assumes "(\<forall>xs. ownProp D ''Analysis'' \<noteq> Some (JArr xs))
           \<or> (\<forall>cs. ownProp D ''The Complete Story'' = Some cs \<longrightarrow> ownProp cs ''Title'' = None)
           \<or> (\<exists>xs x. ownProp D ''Analysis'' = Some (JArr xs) \<and> x \<in> set xs
                 \<and> (asNumber (ownProp x ''Chapter Number'') = None
                    \<or> asNumber (ownProp x ''Sentence Number'') = None
                    \<or> ownProp x ''Sentence'' = None \<or> ownProp x ''Sentence'' = Some (JStr [])))"
  shows "\<exists>st' e. processFile clock uid (ResultText (Some D)) st = Some st'
           \<and> error st' = Some e \<and> storyData st' = None \<and> originalCompleteStory st' = None"
proof (cases "basicValidation D")
  case (Some e)
  then show ?thesis
    by (simp add: processFile_def handleProcessingError_def)
next
  case None
  from basicValidation_None_D [OF None] obtain xs cs where
    a: "ownProp D ''Analysis'' = Some (JArr xs)" "getProp D ''Analysis'' = Inr (Some (JArr xs))"
    and c: "ownProp D ''The Complete Story'' = Some cs" "truthyOpt (ownProp cs ''Title'')"
    by blast
  from c have "ownProp cs ''Title'' \<noteq> None" by (auto simp: truthyOpt_def split: option.splits)
  with assms a c obtain x where x: "x \<in> set xs"
    "asNumber (ownProp x ''Chapter Number'') = None
       \<or> asNumber (ownProp x ''Sentence Number'') = None
       \<or> ownProp x ''Sentence'' = None \<or> ownProp x ''Sentence'' = Some (JStr [])"
    by auto
  from loadItems_invalid [OF x(1) importItem_invalid [OF x(2)]]
  obtain e where "loadItems clock uid 0 xs (Some []) = Inl e" by blast
  with a have "buildStory clock uid D = Inl e" by (simp add: buildStory_def)
  from handleFileLoad_failure [OF this, of st] None show ?thesis
    by (auto simp: processFile_def)
qed

theorem import_validation_witness:
  "ownProp exBadChapter ''Analysis''
     = Some (JArr [JObj [(''Sentence'', JStr ''The end.''), (''Chapter Number'', JStr ''two''),
                         (''Sentence Number'', JNum 1)]])
   \<and> asNumber (Some (JStr ''two'')) = None
   \<and> (\<exists>st' e. processFile exClock exUid (ResultText (Some exBadChapter)) exState = Some st'
           \<and> error st' = Some e \<and> storyData st' = None \<and> originalCompleteStory st' = None)
   \<and> (\<exists>st' e. processFile exClock exUid (ResultText (Some (JObj [(''Analysis'', JStr ''none'')]))) exState = Some st'
           \<and> error st' = Some e \<and> storyData st' = None \<and> originalCompleteStory st' = None)
   \<and> (\<exists>st' e. processFile exClock exUid
                  (ResultText (Some (JObj [(''Analysis'', JArr []), (''The Complete Story'', JObj [])]))) exState
                = Some st'
           \<and> error st' = Some e \<and> storyData st' = None \<and> originalCompleteStory st' = None)"
proof -
  let ?x = "JObj [(''Sentence'', JStr ''The end.''), (''Chapter Number'', JStr ''two''),
                         (''Sentence Number'', JNum 1)]"
  have a: "ownProp exBadChapter ''Analysis'' = Some (JArr [?x])"
    by (simp add: exBadChapter_def ownProp_def)
  have n: "asNumber (Some (JStr ''two'')) = None" by (simp add: asNumber_def)
  have h1: "(\<forall>xs. ownProp exBadChapter ''Analysis'' \<noteq> Some (JArr xs))
           \<or> (\<forall>cs. ownProp exBadChapter ''The Complete Story'' = Some cs \<longrightarrow> ownProp cs ''Title'' = None)
           \<or> (\<exists>xs x. ownProp exBadChapter ''Analysis'' = Some (JArr xs) \<and> x \<in> set xs
                 \<and> (asNumber (ownProp x ''Chapter Number'') = None
                    \<or> asNumber (ownProp x ''Sentence Number'') = None
                    \<or> ownProp x ''Sentence'' = None \<or> ownProp x ''Sentence'' = Some (JStr [])))"
    using a n by (intro disjI2 exI [of _ "[?x]"] exI [of _ ?x]) (simp add: ownProp_def)
  have h2: "(\<forall>xs. ownProp (JObj [(''Analysis'', JStr ''none'')]) ''Analysis'' \<noteq> Some (JArr xs))
           \<or> (\<forall>cs. ownProp (JObj [(''Analysis'', JStr ''none'')]) ''The Complete Story'' = Some cs \<longrightarrow> ownProp cs ''Title'' = None)
           \<or> (\<exists>xs x. ownProp (JObj [(''Analysis'', JStr ''none'')]) ''Analysis'' = Some (JArr xs) \<and> x \<in> set xs
                 \<and> (asNumber (ownProp x ''Chapter Number'') = None
                    \<or> asNumber (ownProp x ''Sentence Number'') = None
                    \<or> ownProp x ''Sentence'' = None \<or> ownProp x ''Sentence'' = Some (JStr [])))"
    by (simp add: ownProp_def)
  let ?d3 = "JObj [(''Analysis'', JArr []), (''The Complete Story'', JObj [])]"
  have h3: "(\<forall>xs. ownProp ?d3 ''Analysis'' \<noteq> Some (JArr xs))
           \<or> (\<forall>cs. ownProp ?d3 ''The Complete Story'' = Some cs \<longrightarrow> ownProp cs ''Title'' = None)
           \<or> (\<exists>xs x. ownProp ?d3 ''Analysis'' = Some (JArr xs) \<and> x \<in> set xs
                 \<and> (asNumber (ownProp x ''Chapter Number'') = None
                    \<or> asNumber (ownProp x ''Sentence Number'') = None
                    \<or> ownProp x ''Sentence'' = None \<or> ownProp x ''Sentence'' = Some (JStr [])))"
    by (simp add: ownProp_def)
  from import_validation [OF h1, of exClock exUid exState]
       import_validation [OF h2, of exClock exUid exState]
       import_validation [OF h3, of exClock exUid exState] a n
  show ?thesis by blast
qed



section \<open>Round trip through the full export\<close>

subsection \<open>Grouping a sorted list of sentences by chapter\<close>














subsection \<open>What the importer builds is well formed\<close>










lemma importItem_chapter:
  assumes "importItem clock uid n x = Inr (Some s, n')"
  shows "asNumber (ownProp x ''Chapter Number'') = Some (ChapterNumber s)"
  using assms
  by (auto simp: importItem_def Let_def split: if_splits option.splits sum.splits prod.splits)






subsection \<open>Importing what the full export wrote\<close>










lemma map_of_legacy_none:
  "k \<noteq> ''comment'' \<Longrightarrow> k \<noteq> ''comment applies to sentences'' \<Longrightarrow> map_of (legacyFields s) k = None"
  by (cases "commentTextOf s"; cases "commentAppliesToOf s") (auto simp: legacyFields_def)






subsection \<open>The second import follows the first\<close>










subsection \<open>The round trip\<close>





end
